theory Spec2Isabelle
  imports Complex_Main "HOL-Library.Word"
begin

section \<open>The backend control loop of robot\_interfaces\<close>

text \<open>
  This theory embeds \<^verbatim>\<open>RobotBackend\<close> of
  \<^verbatim>\<open>include/robot_interfaces/robot_backend.hpp\<close>.  The backend owns one worker thread
  that runs \<^verbatim>\<open>loop()\<close>; clients append desired actions to the shared robot data, may call
  \<^verbatim>\<open>request_shutdown()\<close> and \<^verbatim>\<open>set_max_action_repetitions()\<close>, and the process may receive
  SIGINT, all while the loop runs.  The worker thread is therefore modelled by a program
  counter with one location for every access to the shared data, to the driver or to the
  clock, and a run is a list of events: steps of the worker thread interleaved with the
  actions of its environment.

  Each step of the worker thread is one such access.  \<^verbatim>\<open>has_shutdown_request()\<close> (lines
  211-215) is two of them: it reads \<^verbatim>\<open>is_shutdown_requested_\<close> and, only if that is
  false, \<^verbatim>\<open>has_received_sigint()\<close>; the environment may act between the two reads.
  The calls on \<^verbatim>\<open>timer_\<close> and the output on \<^verbatim>\<open>std::cerr\<close>
  have no effect on the data and are left out, as is \<^verbatim>\<open>initialize()\<close>, which only
  forwards to the driver.  The destructor is a \<^verbatim>\<open>request_shutdown()\<close> followed by a join.
  The loop counter \<^verbatim>\<open>long int t\<close> starts at 0 and only grows by one per iteration; it is a
  natural number here.
\<close>

subsection \<open>Status\<close>

datatype error_status = NO_ERROR | DRIVER_ERROR | BACKEND_ERROR

text \<open>
  Modelled from the spec: class \<^verbatim>\<open>Status\<close> of \<^verbatim>\<open>robot_interfaces/status.hpp\<close>, which
  \<^verbatim>\<open>robot_backend.hpp\<close> includes.  A status holds the error kind, the error message and the repetition counter (an
  unsigned 32-bit integer); a fresh status is \<^verbatim>\<open>NO_ERROR\<close>, the empty message and zero.
\<close>

record status =
  error_status :: error_status
  error_message :: string
  action_repetitions :: "32 word"

definition default_status :: status where
  "default_status = \<lparr>error_status = NO_ERROR, error_message = [], action_repetitions = 0\<rparr>"

text \<open>
  Modelled from the spec: \<^verbatim>\<open>Status::set_error\<close> overwrites kind and message and leaves the
  repetition counter as it is.
\<close>

definition set_error :: "error_status \<Rightarrow> string \<Rightarrow> status \<Rightarrow> status" where
  "set_error k m st = st\<lparr>error_status := k, error_message := m\<rparr>"

subsection \<open>Time series\<close>

text \<open>
  Modelled from the spec: the time series container behind \<^verbatim>\<open>robot_data.hpp\<close>, an
  external collaborator of the loop.  A series is represented by the list of all elements
  appended so far, element \<open>i\<close> of the list being the one with time index \<open>i\<close>; the
  bounded history window of the container is not part of the loop and is left out.  \<^verbatim>\<open>newest_timeindex\<close> yields no index on an empty series,
  \<^verbatim>\<open>newest_element\<close> fails with \<^verbatim>\<open>EMPTY_SERIES\<close> there, \<^verbatim>\<open>wait_for_timeindex\<close> tells
  whether the index exists when the wait ends, and reading an index that lies in the
  future blocks.
\<close>

datatype ts_error = EMPTY_SERIES

definition ts_append :: "'a \<Rightarrow> 'a list \<Rightarrow> 'a list" where
  "ts_append v xs = xs @ [v]"

definition newest_timeindex :: "'a list \<Rightarrow> nat option" where
  "newest_timeindex xs = (if xs = [] then None else Some (length xs - 1))"

definition newest_element :: "'a list \<Rightarrow> ts_error + 'a" where
  "newest_element xs = (if xs = [] then Inl EMPTY_SERIES else Inr (last xs))"

definition wait_for_timeindex :: "nat \<Rightarrow> 'a list \<Rightarrow> bool" where
  "wait_for_timeindex i xs = (i < length xs)"

definition ts_at :: "nat \<Rightarrow> 'a list \<Rightarrow> 'a option" where
  "ts_at i xs = (if i < length xs then Some (xs ! i) else None)"

subsection \<open>Configuration, driver and program state\<close>

text \<open>
  The constant members of the backend.  Clock readings are the real numbers that the
  doubles returned by \<^verbatim>\<open>get_current_time_sec()\<close> stand for.  The floating-point
  arithmetic of line 243 is not computed here: \<open>first_action_timeout_exceeded cfg now start\<close>
  is the value the machine gives to \<^verbatim>\<open>now - start_time > first_action_timeout_\<close>, the
  constant \<^verbatim>\<open>first_action_timeout_\<close> being part of the function (for the default,
  infinity, it is false everywhere).
\<close>

record config =
  real_time_mode :: bool
  first_action_timeout_exceeded :: "real \<Rightarrow> real \<Rightarrow> bool"
  max_number_of_actions :: "32 word"

text \<open>The calls the loop makes on the driver, logged in the order they are made.\<close>

datatype 'a driver_call =
    Get_Latest_Observation
  | Get_Error
  | Apply_Action 'a
  | Shutdown

text \<open>
  What the environment answers when the worker thread takes a step: the clock reading,
  and what the driver returns from \<^verbatim>\<open>get_latest_observation\<close>, \<^verbatim>\<open>get_error\<close> and
  \<^verbatim>\<open>apply_action\<close>.  A step reads only the answer it asks for.
\<close>

record ('a, 'o) answers =
  ans_time :: real
  ans_observation :: 'o
  ans_error :: string
  ans_apply :: "'a \<Rightarrow> 'a"

text \<open>
  The locations of \<^verbatim>\<open>loop()\<close>, with the local variables that are live there.  Locations
  \<open>A_\<close> are the wait for the first action (lines 239-257), locations \<open>B_\<close> the body of
  the \<^verbatim>\<open>for\<close> loop (lines 259-351), \<open>Post_\<close> the two statements after it.  At each of
  the four places where the loop calls \<^verbatim>\<open>has_shutdown_request()\<close> there are two
  locations: the first reads \<^verbatim>\<open>is_shutdown_requested_\<close>, the one named \<open>_Sigint\<close> reads
  the signal flag.
\<close>

datatype ('a, 'o) pc =
    Start
  | A_Check
  | A_Check_Sigint
  | A_Wait
  | A_Clock
  | A_Append_Status
  | A_Request_Shutdown
  | B_Head
  | B_Head_Sigint
  | B_Get_Observation
  | B_Append_Observation 'o
  | B_Check_RT
  | B_Read_Repetitions
  | B_Newest_Desired "32 word"
  | B_Repeat_Append "32 word" 'a
  | B_Get_Error
  | B_Append_Status
  | B_Wait_Check
  | B_Wait_Check_Sigint
  | B_Wait
  | B_After_Wait
  | B_After_Wait_Sigint
  | B_Get_Action
  | B_Apply 'a
  | B_Append_Applied 'a
  | Post_Shutdown
  | Post_Flag
  | Terminated
  | Failed ts_error

record ('a, 'o) state =
  desired_action :: "'a list"
  applied_action :: "'a list"
  observation :: "'o list"
  status_series :: "status list"
  is_shutdown_requested :: bool
  received_sigint :: bool
  loop_is_running :: bool
  max_action_repetitions :: "32 word"
  start_time :: real
  timeindex :: nat
  cur_status :: status
  driver_calls :: "'a driver_call list"
  pc :: "('a, 'o) pc"

text \<open>
  The state when the constructor has returned: fresh robot data, no shutdown request,
  \<^verbatim>\<open>loop_is_running_ = true\<close>, \<^verbatim>\<open>max_action_repetitions_ = 0\<close>, the thread about to
  run \<^verbatim>\<open>loop()\<close>.
\<close>

definition init_state :: "('a, 'o) state" where
  "init_state = \<lparr>desired_action = [], applied_action = [], observation = [],
     status_series = [], is_shutdown_requested = False, received_sigint = False,
     loop_is_running = True, max_action_repetitions = 0, start_time = 0, timeindex = 0,
     cur_status = default_status, driver_calls = [], pc = Start\<rparr>"

subsection \<open>The loop\<close>

definition first_action_status :: status where
  "first_action_status =
     set_error BACKEND_ERROR ''First action was not provided in time'' default_status"

definition initial_status :: "config \<Rightarrow> nat \<Rightarrow> status" where
  "initial_status cfg t =
     (if 0 < max_number_of_actions cfg \<and> unat (max_number_of_actions cfg) \<le> t
      then set_error BACKEND_ERROR ''Maximum number of actions reached.'' default_status
      else default_status)"

text \<open>
  One step of the worker thread, by location.  Where \<^verbatim>\<open>newest_element()\<close> fails the
  exception leaves the thread: the loop is stuck in a failed location.  Where the
  desired actions have no newest index the comparison with \<open>t\<close> of line 290 is taken to
  hold, since no index at or above \<open>t\<close> exists.  Reading \<^verbatim>\<open>desired_action[t]\<close> before that
  index exists blocks: the step changes nothing.
\<close>

fun backend_at ::
  "config \<Rightarrow> ('a, 'o) answers \<Rightarrow> ('a, 'o) state \<Rightarrow> ('a, 'o) pc \<Rightarrow> ('a, 'o) state" where
  "backend_at cfg a s Start = s\<lparr>start_time := ans_time a, pc := A_Check\<rparr>"
| "backend_at cfg a s A_Check =
     (if is_shutdown_requested s then s\<lparr>timeindex := 0, pc := B_Head\<rparr>
      else s\<lparr>pc := A_Check_Sigint\<rparr>)"
| "backend_at cfg a s A_Check_Sigint =
     (if received_sigint s then s\<lparr>timeindex := 0, pc := B_Head\<rparr>
      else s\<lparr>pc := A_Wait\<rparr>)"
| "backend_at cfg a s A_Wait =
     (if wait_for_timeindex 0 (desired_action s) then s\<lparr>timeindex := 0, pc := B_Head\<rparr>
      else s\<lparr>pc := A_Clock\<rparr>)"
| "backend_at cfg a s A_Clock =
     (if first_action_timeout_exceeded cfg (ans_time a) (start_time s)
      then s\<lparr>pc := A_Append_Status\<rparr>
      else s\<lparr>pc := A_Check\<rparr>)"
| "backend_at cfg a s A_Append_Status =
     s\<lparr>status_series := ts_append first_action_status (status_series s),
       pc := A_Request_Shutdown\<rparr>"
| "backend_at cfg a s A_Request_Shutdown =
     s\<lparr>is_shutdown_requested := True, timeindex := 0, pc := B_Head\<rparr>"
| "backend_at cfg a s B_Head =
     (if is_shutdown_requested s then s\<lparr>pc := Post_Shutdown\<rparr>
      else s\<lparr>pc := B_Head_Sigint\<rparr>)"
| "backend_at cfg a s B_Head_Sigint =
     (if received_sigint s then s\<lparr>pc := Post_Shutdown\<rparr>
      else s\<lparr>cur_status := initial_status cfg (timeindex s), pc := B_Get_Observation\<rparr>)"
| "backend_at cfg a s B_Get_Observation =
     s\<lparr>driver_calls := driver_calls s @ [Get_Latest_Observation],
       pc := B_Append_Observation (ans_observation a)\<rparr>"
| "backend_at cfg a s (B_Append_Observation ob) =
     s\<lparr>observation := ts_append ob (observation s), pc := B_Check_RT\<rparr>"
| "backend_at cfg a s B_Check_RT =
     (if real_time_mode cfg \<and>
         (case newest_timeindex (desired_action s) of
            None \<Rightarrow> True | Some i \<Rightarrow> i < timeindex s)
      then s\<lparr>pc := B_Read_Repetitions\<rparr>
      else s\<lparr>pc := B_Get_Error\<rparr>)"
| "backend_at cfg a s B_Read_Repetitions =
     (case newest_element (status_series s) of
        Inl e \<Rightarrow> s\<lparr>pc := Failed e\<rparr>
      | Inr st \<Rightarrow>
          if action_repetitions st < max_action_repetitions s
          then s\<lparr>pc := B_Newest_Desired (action_repetitions st)\<rparr>
          else s\<lparr>cur_status := set_error BACKEND_ERROR
                   ''Next action was not provided in time'' (cur_status s),
                 pc := B_Get_Error\<rparr>)"
| "backend_at cfg a s (B_Newest_Desired r) =
     (case newest_element (desired_action s) of
        Inl e \<Rightarrow> s\<lparr>pc := Failed e\<rparr>
      | Inr x \<Rightarrow> s\<lparr>pc := B_Repeat_Append r x\<rparr>)"
| "backend_at cfg a s (B_Repeat_Append r x) =
     s\<lparr>desired_action := ts_append x (desired_action s),
       cur_status := (cur_status s)\<lparr>action_repetitions := r + 1\<rparr>,
       pc := B_Get_Error\<rparr>"
| "backend_at cfg a s B_Get_Error =
     s\<lparr>driver_calls := driver_calls s @ [Get_Error],
       cur_status := (if ans_error a \<noteq> [] then set_error DRIVER_ERROR (ans_error a) (cur_status s)
                      else cur_status s),
       pc := B_Append_Status\<rparr>"
| "backend_at cfg a s B_Append_Status =
     s\<lparr>status_series := ts_append (cur_status s) (status_series s),
       pc := (if error_status (cur_status s) \<noteq> NO_ERROR then Post_Shutdown else B_Wait_Check)\<rparr>"
| "backend_at cfg a s B_Wait_Check =
     (if is_shutdown_requested s then s\<lparr>pc := B_After_Wait\<rparr>
      else s\<lparr>pc := B_Wait_Check_Sigint\<rparr>)"
| "backend_at cfg a s B_Wait_Check_Sigint =
     (if received_sigint s then s\<lparr>pc := B_After_Wait\<rparr> else s\<lparr>pc := B_Wait\<rparr>)"
| "backend_at cfg a s B_Wait =
     (if wait_for_timeindex (timeindex s) (desired_action s) then s\<lparr>pc := B_After_Wait\<rparr>
      else s\<lparr>pc := B_Wait_Check\<rparr>)"
| "backend_at cfg a s B_After_Wait =
     (if is_shutdown_requested s then s\<lparr>pc := Post_Shutdown\<rparr>
      else s\<lparr>pc := B_After_Wait_Sigint\<rparr>)"
| "backend_at cfg a s B_After_Wait_Sigint =
     (if received_sigint s then s\<lparr>pc := Post_Shutdown\<rparr> else s\<lparr>pc := B_Get_Action\<rparr>)"
| "backend_at cfg a s B_Get_Action =
     (case ts_at (timeindex s) (desired_action s) of
        None \<Rightarrow> s
      | Some x \<Rightarrow> s\<lparr>pc := B_Apply x\<rparr>)"
| "backend_at cfg a s (B_Apply x) =
     s\<lparr>driver_calls := driver_calls s @ [Apply_Action x],
       pc := B_Append_Applied (ans_apply a x)\<rparr>"
| "backend_at cfg a s (B_Append_Applied y) =
     s\<lparr>applied_action := ts_append y (applied_action s),
       timeindex := timeindex s + 1, pc := B_Head\<rparr>"
| "backend_at cfg a s Post_Shutdown =
     s\<lparr>driver_calls := driver_calls s @ [Shutdown], pc := Post_Flag\<rparr>"
| "backend_at cfg a s Post_Flag = s\<lparr>loop_is_running := False, pc := Terminated\<rparr>"
| "backend_at cfg a s Terminated = s"
| "backend_at cfg a s (Failed e) = s"

text \<open>
  The events of a run: a client appends a desired action, somebody calls
  \<^verbatim>\<open>request_shutdown()\<close> or \<^verbatim>\<open>set_max_action_repetitions(n)\<close>, the process receives SIGINT,
  or the worker thread takes its next step.
\<close>

datatype ('a, 'o) event =
    Client_Append 'a
  | Request_Shutdown
  | Sigint
  | Set_Max_Action_Repetitions "32 word"
  | Backend "('a, 'o) answers"

fun step :: "config \<Rightarrow> ('a, 'o) event \<Rightarrow> ('a, 'o) state \<Rightarrow> ('a, 'o) state" where
  "step cfg (Client_Append x) s = s\<lparr>desired_action := ts_append x (desired_action s)\<rparr>"
| "step cfg Request_Shutdown s = s\<lparr>is_shutdown_requested := True\<rparr>"
| "step cfg Sigint s = s\<lparr>received_sigint := True\<rparr>"
| "step cfg (Set_Max_Action_Repetitions n) s = s\<lparr>max_action_repetitions := n\<rparr>"
| "step cfg (Backend a) s = backend_at cfg a s (pc s)"

definition run :: "config \<Rightarrow> ('a, 'o) event list \<Rightarrow> ('a, 'o) state \<Rightarrow> ('a, 'o) state" where
  "run cfg es s = foldl (\<lambda>s e. step cfg e s) s es"

subsection \<open>What the environment does between two steps of the loop\<close>

fun is_env :: "('a, 'o) event \<Rightarrow> bool" where
  "is_env (Backend a) = False"
| "is_env e = True"

definition env_only :: "('a, 'o) event list \<Rightarrow> bool" where
  "env_only es = list_all is_env es"

definition backend_steps :: "('a, 'o) event list \<Rightarrow> nat" where
  "backend_steps es = length (filter (\<lambda>e. \<not> is_env e) es)"

text \<open>The actions that clients append during a list of events.\<close>

definition env_appends :: "('a, 'o) event list \<Rightarrow> 'a list" where
  "env_appends es = concat (map (\<lambda>e. case e of Client_Append x \<Rightarrow> [x] | _ \<Rightarrow> []) es)"

text \<open>The value of \<^verbatim>\<open>max_action_repetitions_\<close> after the setter calls of a list of events.\<close>

definition env_max :: "('a, 'o) event list \<Rightarrow> 32 word \<Rightarrow> 32 word" where
  "env_max es m = foldl (\<lambda>m e. case e of Set_Max_Action_Repetitions n \<Rightarrow> n | _ \<Rightarrow> m) m es"

subsection \<open>Quantities read off the driver log\<close>

definition apply_args :: "'a driver_call list \<Rightarrow> 'a list" where
  "apply_args cs = concat (map (\<lambda>c. case c of Apply_Action x \<Rightarrow> [x] | _ \<Rightarrow> []) cs)"

definition obs_calls :: "'a driver_call list \<Rightarrow> nat" where
  "obs_calls cs = length (filter (\<lambda>c. c = Get_Latest_Observation) cs)"


subsection \<open>The shape of the robot data at every location\<close>

text \<open>
  \<open>shape s ns no nc na\<close>: the status series has \<open>ns\<close> elements, the observation series
  \<open>no\<close>, the applied actions as many as the loop counter says, the driver was asked
  \<open>nc\<close> times for an observation and was given the first \<open>na\<close> desired actions, in order.
\<close>

definition shape :: "('a, 'o) state \<Rightarrow> nat \<Rightarrow> nat \<Rightarrow> nat \<Rightarrow> nat \<Rightarrow> bool" where
  "shape s ns no nc na =
     (length (status_series s) = ns \<and> length (observation s) = no \<and>
      length (applied_action s) = timeindex s \<and>
      obs_calls (driver_calls s) = nc \<and>
      apply_args (driver_calls s) = take na (desired_action s) \<and>
      na \<le> length (desired_action s))"

definition phase_a :: "('a, 'o) state \<Rightarrow> bool" where
  "phase_a s =
     (status_series s = [] \<and> observation s = [] \<and> applied_action s = [] \<and>
      driver_calls s = [] \<and> loop_is_running s)"

text \<open>The first action did not come in time: one status, nothing else, shutdown requested.\<close>

definition timed_out :: "('a, 'o) state \<Rightarrow> bool" where
  "timed_out s =
     (status_series s = [first_action_status] \<and> observation s = [] \<and>
      applied_action s = [] \<and> is_shutdown_requested s \<and> timeindex s = 0 \<and>
      obs_calls (driver_calls s) = 0 \<and> apply_args (driver_calls s) = [])"

definition running :: "('a, 'o) state \<Rightarrow> bool" where
  "running s = (loop_is_running s \<and> Shutdown \<notin> set (driver_calls s))"

definition shut_once :: "'a driver_call list \<Rightarrow> bool" where
  "shut_once cs = (cs \<noteq> [] \<and> last cs = Shutdown \<and> Shutdown \<notin> set (butlast cs))"

definition post :: "('a, 'o) state \<Rightarrow> bool" where
  "post s =
     (timed_out s \<or>
      shape s (timeindex s) (timeindex s) (timeindex s) (timeindex s) \<or>
      shape s (timeindex s + 1) (timeindex s + 1) (timeindex s + 1) (timeindex s))"

definition in_step :: "('a, 'o) state \<Rightarrow> bool" where
  "in_step s =
     (running s \<and> desired_action s \<noteq> [] \<and>
      shape s (timeindex s) (timeindex s + 1) (timeindex s + 1) (timeindex s))"

definition after_status :: "('a, 'o) state \<Rightarrow> bool" where
  "after_status s =
     (running s \<and> desired_action s \<noteq> [] \<and>
      shape s (timeindex s + 1) (timeindex s + 1) (timeindex s + 1) (timeindex s))"

fun loc1 :: "('a, 'o) state \<Rightarrow> ('a, 'o) pc \<Rightarrow> bool" where
  "loc1 s Start = phase_a s"
| "loc1 s A_Check = phase_a s"
| "loc1 s A_Check_Sigint = phase_a s"
| "loc1 s A_Wait = phase_a s"
| "loc1 s A_Clock = phase_a s"
| "loc1 s A_Append_Status = phase_a s"
| "loc1 s A_Request_Shutdown =
     (status_series s = [first_action_status] \<and> observation s = [] \<and>
      applied_action s = [] \<and> driver_calls s = [] \<and> loop_is_running s)"
| "loc1 s B_Head =
     (running s \<and>
      (timed_out s \<or>
       shape s (timeindex s) (timeindex s) (timeindex s) (timeindex s) \<and>
       (timeindex s = 0 \<longrightarrow>
          desired_action s \<noteq> [] \<or> is_shutdown_requested s \<or> received_sigint s)))"
| "loc1 s B_Head_Sigint =
     (running s \<and>
      shape s (timeindex s) (timeindex s) (timeindex s) (timeindex s) \<and>
      (timeindex s = 0 \<longrightarrow> desired_action s \<noteq> [] \<or> received_sigint s))"
| "loc1 s B_Get_Observation =
     (running s \<and> desired_action s \<noteq> [] \<and>
      shape s (timeindex s) (timeindex s) (timeindex s) (timeindex s))"
| "loc1 s (B_Append_Observation ob) =
     (running s \<and> desired_action s \<noteq> [] \<and>
      shape s (timeindex s) (timeindex s) (timeindex s + 1) (timeindex s))"
| "loc1 s B_Check_RT = in_step s"
| "loc1 s B_Read_Repetitions = (in_step s \<and> 0 < timeindex s)"
| "loc1 s (B_Newest_Desired r) = (in_step s \<and> 0 < timeindex s)"
| "loc1 s (B_Repeat_Append r x) = (in_step s \<and> 0 < timeindex s)"
| "loc1 s B_Get_Error = in_step s"
| "loc1 s B_Append_Status = in_step s"
| "loc1 s B_Wait_Check = after_status s"
| "loc1 s B_Wait_Check_Sigint = after_status s"
| "loc1 s B_Wait = after_status s"
| "loc1 s B_After_Wait =
     (after_status s \<and>
      (timeindex s < length (desired_action s) \<or> is_shutdown_requested s \<or>
       received_sigint s))"
| "loc1 s B_After_Wait_Sigint =
     (after_status s \<and> (timeindex s < length (desired_action s) \<or> received_sigint s))"
| "loc1 s B_Get_Action = (after_status s \<and> timeindex s < length (desired_action s))"
| "loc1 s (B_Apply x) =
     (after_status s \<and> timeindex s < length (desired_action s) \<and>
      x = desired_action s ! timeindex s)"
| "loc1 s (B_Append_Applied y) =
     (running s \<and>
      shape s (timeindex s + 1) (timeindex s + 1) (timeindex s + 1) (timeindex s + 1))"
| "loc1 s Post_Shutdown = (running s \<and> post s)"
| "loc1 s Post_Flag = (loop_is_running s \<and> post s \<and> shut_once (driver_calls s))"
| "loc1 s Terminated = (\<not> loop_is_running s \<and> post s \<and> shut_once (driver_calls s))"
| "loc1 s (Failed e) = False"

definition inv1 :: "('a, 'o) state \<Rightarrow> bool" where
  "inv1 s = loc1 s (pc s)"

subsection \<open>The action limit and the status under construction\<close>

definition max_actions_message :: string where
  "max_actions_message = ''Maximum number of actions reached.''"

definition late_action_message :: string where
  "late_action_message = ''Next action was not provided in time''"

definition reached :: "config \<Rightarrow> nat \<Rightarrow> bool" where
  "reached cfg t = (0 < max_number_of_actions cfg \<and> unat (max_number_of_actions cfg) \<le> t)"

definition limit :: "config \<Rightarrow> ('a, 'o) state \<Rightarrow> bool" where
  "limit cfg s =
     (0 < max_number_of_actions cfg \<longrightarrow> timeindex s \<le> unat (max_number_of_actions cfg))"

definition fresh :: "config \<Rightarrow> ('a, 'o) state \<Rightarrow> bool" where
  "fresh cfg s = (limit cfg s \<and> cur_status s = initial_status cfg (timeindex s))"

fun loc2 :: "config \<Rightarrow> ('a, 'o) state \<Rightarrow> ('a, 'o) pc \<Rightarrow> bool" where
  "loc2 cfg s B_Head = limit cfg s"
| "loc2 cfg s B_Head_Sigint = limit cfg s"
| "loc2 cfg s B_Get_Observation = fresh cfg s"
| "loc2 cfg s (B_Append_Observation ob) = fresh cfg s"
| "loc2 cfg s B_Check_RT = fresh cfg s"
| "loc2 cfg s B_Read_Repetitions = fresh cfg s"
| "loc2 cfg s (B_Newest_Desired r) = fresh cfg s"
| "loc2 cfg s (B_Repeat_Append r x) = fresh cfg s"
| "loc2 cfg s B_Get_Error =
     (limit cfg s \<and>
      (reached cfg (timeindex s) \<longrightarrow>
         error_status (cur_status s) = BACKEND_ERROR \<and>
         (error_message (cur_status s) = max_actions_message \<or>
          error_message (cur_status s) = late_action_message)))"
| "loc2 cfg s B_Append_Status =
     (limit cfg s \<and>
      (reached cfg (timeindex s) \<longrightarrow> error_status (cur_status s) \<noteq> NO_ERROR))"
| "loc2 cfg s B_Wait_Check = (\<not> reached cfg (timeindex s))"
| "loc2 cfg s B_Wait_Check_Sigint = (\<not> reached cfg (timeindex s))"
| "loc2 cfg s B_After_Wait_Sigint = (\<not> reached cfg (timeindex s))"
| "loc2 cfg s B_Wait = (\<not> reached cfg (timeindex s))"
| "loc2 cfg s B_After_Wait = (\<not> reached cfg (timeindex s))"
| "loc2 cfg s B_Get_Action = (\<not> reached cfg (timeindex s))"
| "loc2 cfg s (B_Apply x) = (\<not> reached cfg (timeindex s))"
| "loc2 cfg s (B_Append_Applied y) = (\<not> reached cfg (timeindex s))"
| "loc2 cfg s Post_Shutdown = limit cfg s"
| "loc2 cfg s Post_Flag = limit cfg s"
| "loc2 cfg s Terminated = limit cfg s"
| "loc2 cfg s p = True"

definition inv2 :: "config \<Rightarrow> ('a, 'o) state \<Rightarrow> bool" where
  "inv2 cfg s = loc2 cfg s (pc s)"

text \<open>Once the status series has an entry at the index of the limit, it is an error.\<close>

definition inv4 :: "config \<Rightarrow> ('a, 'o) state \<Rightarrow> bool" where
  "inv4 cfg s =
     (0 < max_number_of_actions cfg \<and>
      length (status_series s) = unat (max_number_of_actions cfg) + 1 \<longrightarrow>
        error_status (status_series s ! unat (max_number_of_actions cfg)) \<noteq> NO_ERROR)"

subsection \<open>Without real-time mode the repetition branch is dead\<close>

fun rt_branch :: "('a, 'o) pc \<Rightarrow> bool" where
  "rt_branch B_Read_Repetitions = True"
| "rt_branch (B_Newest_Desired r) = True"
| "rt_branch (B_Repeat_Append r x) = True"
| "rt_branch p = False"

definition inv3 :: "('a, 'o) state \<Rightarrow> bool" where
  "inv3 s =
     (\<not> rt_branch (pc s) \<and> action_repetitions (cur_status s) = 0 \<and>
      list_all (\<lambda>x. action_repetitions x = 0) (status_series s))"

subsection \<open>Waiting for the loop to end\<close>


subsection \<open>The path after a first-action timeout\<close>


subsection \<open>Why the loop is left\<close>

text \<open>
  The status series is clean when it is empty or ends with a status without error.  The
  loop leaves its \<^verbatim>\<open>for\<close> statement for one of five reasons: the action limit, an error
  of the driver, a late action that may not be repeated, the timeout of the first
  action, or a shutdown request seen by one of the checks.
\<close>

definition clean :: "('a, 'o) state \<Rightarrow> bool" where
  "clean s = (status_series s = [] \<or> error_status (last (status_series s)) = NO_ERROR)"

definition pre_ok :: "config \<Rightarrow> ('a, 'o) state \<Rightarrow> bool" where
  "pre_ok cfg s =
     (error_status (cur_status s) = NO_ERROR \<or>
      error_status (cur_status s) = BACKEND_ERROR \<and>
        error_message (cur_status s) = late_action_message \<or>
      reached cfg (timeindex s))"

definition exit_ok :: "config \<Rightarrow> ('a, 'o) state \<Rightarrow> bool" where
  "exit_ok cfg s =
     (0 < max_number_of_actions cfg \<and> timeindex s = unat (max_number_of_actions cfg) \<and>
        length (status_series s) = unat (max_number_of_actions cfg) + 1 \<or>
      status_series s \<noteq> [] \<and> error_status (last (status_series s)) = DRIVER_ERROR \<or>
      status_series s \<noteq> [] \<and> error_status (last (status_series s)) = BACKEND_ERROR \<and>
        error_message (last (status_series s)) = late_action_message \<or>
      status_series s = [first_action_status] \<or>
      (is_shutdown_requested s \<or> received_sigint s) \<and> clean s)"

definition checked :: "('a, 'o) state \<Rightarrow> bool" where
  "checked s = (status_series s \<noteq> [] \<and> error_status (last (status_series s)) = NO_ERROR)"

fun loc5 :: "config \<Rightarrow> ('a, 'o) state \<Rightarrow> ('a, 'o) pc \<Rightarrow> bool" where
  "loc5 cfg s Start = (status_series s = [])"
| "loc5 cfg s A_Check = (status_series s = [])"
| "loc5 cfg s A_Check_Sigint = (status_series s = [])"
| "loc5 cfg s A_Wait = (status_series s = [])"
| "loc5 cfg s A_Clock = (status_series s = [])"
| "loc5 cfg s A_Append_Status = (status_series s = [])"
| "loc5 cfg s A_Request_Shutdown = (status_series s = [first_action_status])"
| "loc5 cfg s B_Head = (status_series s = [first_action_status] \<or> clean s)"
| "loc5 cfg s B_Head_Sigint = (status_series s = [first_action_status] \<or> clean s)"
| "loc5 cfg s B_Get_Error = pre_ok cfg s"
| "loc5 cfg s B_Append_Status =
     (pre_ok cfg s \<or> error_status (cur_status s) = DRIVER_ERROR)"
| "loc5 cfg s B_Wait_Check = checked s"
| "loc5 cfg s B_Wait_Check_Sigint = checked s"
| "loc5 cfg s B_Wait = checked s"
| "loc5 cfg s B_After_Wait = checked s"
| "loc5 cfg s B_After_Wait_Sigint = checked s"
| "loc5 cfg s B_Get_Action = checked s"
| "loc5 cfg s (B_Apply x) = checked s"
| "loc5 cfg s (B_Append_Applied y) = checked s"
| "loc5 cfg s Post_Shutdown = exit_ok cfg s"
| "loc5 cfg s Post_Flag = exit_ok cfg s"
| "loc5 cfg s Terminated = exit_ok cfg s"
| "loc5 cfg s p = True"

definition inv5 :: "config \<Rightarrow> ('a, 'o) state \<Rightarrow> bool" where
  "inv5 cfg s = loc5 cfg s (pc s)"

subsection \<open>Runs that get to the action limit\<close>

text \<open>
  An event is calm when it is not a shutdown request and not a signal, and when the
  driver reports no error in it.  \<open>rank\<close> counts the locations the loop has passed: 18
  for each completed iteration, and the position in the current one.
\<close>

fun calm :: "('a, 'o) event \<Rightarrow> bool" where
  "calm (Backend a) = (ans_error a = [])"
| "calm Request_Shutdown = False"
| "calm Sigint = False"
| "calm e = True"

fun offset :: "('a, 'o) pc \<Rightarrow> nat" where
  "offset B_Head = 0"
| "offset B_Head_Sigint = 1"
| "offset B_Get_Observation = 2"
| "offset (B_Append_Observation ob) = 3"
| "offset B_Check_RT = 4"
| "offset B_Read_Repetitions = 5"
| "offset (B_Newest_Desired r) = 6"
| "offset (B_Repeat_Append r x) = 7"
| "offset B_Get_Error = 8"
| "offset B_Append_Status = 9"
| "offset B_Wait_Check = 10"
| "offset B_Wait_Check_Sigint = 11"
| "offset B_Wait = 12"
| "offset B_After_Wait = 13"
| "offset B_After_Wait_Sigint = 14"
| "offset B_Get_Action = 15"
| "offset (B_Apply x) = 16"
| "offset (B_Append_Applied y) = 17"
| "offset Post_Shutdown = 10"
| "offset Post_Flag = 11"
| "offset Terminated = 12"
| "offset p = 0"

definition rank :: "('a, 'o) state \<Rightarrow> nat" where
  "rank s = 18 * timeindex s + offset (pc s)"

fun track_at :: "config \<Rightarrow> ('a, 'o) state \<Rightarrow> ('a, 'o) pc \<Rightarrow> bool" where
  "track_at cfg s B_Head = True"
| "track_at cfg s B_Head_Sigint = True"
| "track_at cfg s B_Get_Observation = True"
| "track_at cfg s (B_Append_Observation ob) = True"
| "track_at cfg s B_Check_RT = True"
| "track_at cfg s B_Read_Repetitions = (timeindex s = unat (max_number_of_actions cfg))"
| "track_at cfg s (B_Newest_Desired r) = (timeindex s = unat (max_number_of_actions cfg))"
| "track_at cfg s (B_Repeat_Append r x) = (timeindex s = unat (max_number_of_actions cfg))"
| "track_at cfg s B_Get_Error =
     (timeindex s < unat (max_number_of_actions cfg) \<longrightarrow>
        error_status (cur_status s) = NO_ERROR)"
| "track_at cfg s B_Append_Status =
     (timeindex s < unat (max_number_of_actions cfg) \<longrightarrow>
        error_status (cur_status s) = NO_ERROR)"
| "track_at cfg s B_Wait_Check = (timeindex s < unat (max_number_of_actions cfg))"
| "track_at cfg s B_Wait_Check_Sigint = (timeindex s < unat (max_number_of_actions cfg))"
| "track_at cfg s B_Wait = (timeindex s < unat (max_number_of_actions cfg))"
| "track_at cfg s B_After_Wait = (timeindex s < unat (max_number_of_actions cfg))"
| "track_at cfg s B_After_Wait_Sigint = (timeindex s < unat (max_number_of_actions cfg))"
| "track_at cfg s B_Get_Action = (timeindex s < unat (max_number_of_actions cfg))"
| "track_at cfg s (B_Apply x) = (timeindex s < unat (max_number_of_actions cfg))"
| "track_at cfg s (B_Append_Applied y) = (timeindex s < unat (max_number_of_actions cfg))"
| "track_at cfg s Post_Shutdown =
     (timeindex s = unat (max_number_of_actions cfg) \<and>
      length (status_series s) = unat (max_number_of_actions cfg) + 1)"
| "track_at cfg s Post_Flag =
     (timeindex s = unat (max_number_of_actions cfg) \<and>
      length (status_series s) = unat (max_number_of_actions cfg) + 1)"
| "track_at cfg s Terminated =
     (timeindex s = unat (max_number_of_actions cfg) \<and>
      length (status_series s) = unat (max_number_of_actions cfg) + 1)"
| "track_at cfg s p = False"

definition on_track :: "config \<Rightarrow> ('a, 'o) state \<Rightarrow> bool" where
  "on_track cfg s =
     (\<not> is_shutdown_requested s \<and> \<not> received_sigint s \<and>
      unat (max_number_of_actions cfg) \<le> length (desired_action s) \<and>
      timeindex s \<le> unat (max_number_of_actions cfg) \<and>
      track_at cfg s (pc s))"

subsection \<open>Runs with wall-clock times\<close>





subsection \<open>The two shutdown flags\<close>







subsection \<open>Concrete runs\<close>

text \<open>
  Actions and observations are numbers here.  \<open>no_timeout\<close> is the clock check for the
  infinite timeout.  \<open>quiet\<close> is a driver without fault that
  applies every action unchanged, \<open>tick\<close> a step of the worker thread with that driver,
  \<open>fault\<close> a step during which the driver reports an error.
\<close>

definition no_timeout :: "real \<Rightarrow> real \<Rightarrow> bool" where
  "no_timeout now start = False"

definition rt_cfg :: config where
  "rt_cfg = \<lparr>real_time_mode = True, first_action_timeout_exceeded = no_timeout,
     max_number_of_actions = 0\<rparr>"

definition quiet :: "(nat, nat) answers" where
  "quiet = \<lparr>ans_time = 0, ans_observation = 7, ans_error = [], ans_apply = (\<lambda>x. x)\<rparr>"

definition tick :: "(nat, nat) event" where
  "tick = Backend quiet"

definition overheat :: "(nat, nat) answers" where
  "overheat = \<lparr>ans_time = 0, ans_observation = 7, ans_error = ''overheat'',
     ans_apply = (\<lambda>x. x)\<rparr>"

definition fault :: "(nat, nat) event" where
  "fault = Backend overheat"

text \<open>
  A client appends action 5 while the loop waits for the first action.  The loop runs
  step 0 up to the check for a late action (8 steps of the worker thread), up to the
  append of the applied action (18 steps), to its end (19 steps), and step 1 up to the
  check for a late action (4 more).
\<close>

definition check_at_zero :: "(nat, nat) event list" where
  "check_at_zero = [tick, tick, tick, Client_Append 5, tick, tick, tick, tick, tick]"

definition applied_zero_pending :: "(nat, nat) event list" where
  "applied_zero_pending =
     [tick, tick, tick, Client_Append 5, tick, tick, tick, tick, tick, tick, tick, tick,
      tick, tick, tick, tick, tick, tick, tick]"

definition first_step_done :: "(nat, nat) event list" where
  "first_step_done = applied_zero_pending @ [tick]"

definition late_at_one :: "(nat, nat) event list" where
  "late_at_one = first_step_done @ [tick, tick, tick, tick]"

text \<open>
  Step 0 up to the append of its status (10 steps of the worker thread), and with that
  append done.
\<close>

definition status_zero_pending :: "(nat, nat) event list" where
  "status_zero_pending =
     [tick, tick, tick, Client_Append 5, tick, tick, tick, tick, tick, tick, tick]"

definition status_zero_appended :: "(nat, nat) event list" where
  "status_zero_appended = status_zero_pending @ [tick]"

text \<open>
  Without real-time mode and with a limit of one action: step 0 is carried out, step 1
  runs into the limit.
\<close>

definition one_action_cfg :: config where
  "one_action_cfg =
     \<lparr>real_time_mode = False, first_action_timeout_exceeded = no_timeout,
      max_number_of_actions = 1\<rparr>"

definition limit_hit :: "(nat, nat) event list" where
  "limit_hit = first_step_done @ [tick, tick, tick, tick, tick, tick, tick]"


text \<open>
  Without real-time mode and without a limit; in \<open>limit_hit\<close> the loop then waits for
  the action of step 1.
\<close>

definition blocking_cfg :: config where
  "blocking_cfg =
     \<lparr>real_time_mode = False, first_action_timeout_exceeded = no_timeout,
      max_number_of_actions = 0\<rparr>"

text \<open>
  A first-action timeout of a quarter of a second.  At clock readings that are multiples
  of 1/64 below 4, as in the runs below, the doubles are exact and the subtraction of
  line 243 is exact, so the check is the comparison of the real numbers.
\<close>

definition exceeds_quarter :: "real \<Rightarrow> real \<Rightarrow> bool" where
  "exceeds_quarter now start = (now - start > 1 / 4)"



text \<open>
  Real-time mode, no repetitions allowed: step 1 finds no new action (\<open>late_at_one\<close>),
  the loop reads the repetition counter and sets the error, then the driver reports a
  fault in the same step and the status is appended.
\<close>

definition late_and_fault :: "(nat, nat) event list" where
  "late_and_fault = late_at_one @ [tick, tick, fault, tick]"

text \<open>Two repetitions allowed: the late action of step 1 is repeated.\<close>

definition repeat_at_one :: "(nat, nat) event list" where
  "repeat_at_one = Set_Max_Action_Repetitions 2 # late_at_one"

text \<open>
  A limit of one action; the client appends three actions at once, and the driver
  reports a fault in step 1.
\<close>

definition fault_at_limit :: "(nat, nat) event list" where
  "fault_at_limit =
     [tick, tick, tick, Client_Append 5, Client_Append 6, Client_Append 8,
      tick, tick, tick, tick, tick, tick, tick, tick, tick, tick, tick, tick, tick, tick,
      tick, tick,
      tick, tick, tick, tick, tick, fault, tick]"

text \<open>The limit of one action again: step 1 up to the poll of the driver.\<close>

definition limit_before_poll :: "(nat, nat) event list" where
  "limit_before_poll = first_step_done @ [tick, tick, tick, tick, tick]"

text \<open>
  Real-time mode and a limit of three actions.  The client supplies three actions while
  the loop waits for the first; \<open>three_supplied\<close> ends with the loop at the head of step 0.
  After that the worker thread takes 64 steps with a quiet driver and nobody asks for a
  shutdown.
\<close>

definition three_action_cfg :: config where
  "three_action_cfg =
     \<lparr>real_time_mode = True, first_action_timeout_exceeded = no_timeout,
      max_number_of_actions = 3\<rparr>"

definition three_supplied :: "(nat, nat) event list" where
  "three_supplied =
     [tick, tick, tick, Client_Append 5, Client_Append 6, Client_Append 8, tick]"

definition sixteen_ticks :: "(nat, nat) event list" where
  "sixteen_ticks =
     [tick, tick, tick, tick, tick, tick, tick, tick,
      tick, tick, tick, tick, tick, tick, tick, tick]"

definition calm_to_limit :: "(nat, nat) event list" where
  "calm_to_limit = sixteen_ticks @ sixteen_ticks @ sixteen_ticks @ sixteen_ticks"





section \<open>Lemmas\<close>

subsection \<open>Basic facts about runs\<close>

lemma run_Nil [simp]: "run cfg [] s = s"
  by (simp add: run_def)

lemma run_Cons [simp]: "run cfg (e # es) s = run cfg es (step cfg e s)"
  by (simp add: run_def)

lemma run_append [simp]: "run cfg (es @ es') s = run cfg es' (run cfg es s)"
  by (simp add: run_def)

lemma env_only_Nil [simp]: "env_only []"
  by (simp add: env_only_def)

lemma env_only_Cons [simp]: "env_only (e # es) = (is_env e \<and> env_only es)"
  by (simp add: env_only_def)

lemma env_only_append [simp]: "env_only (es @ es') = (env_only es \<and> env_only es')"
  by (simp add: env_only_def)

lemma env_appends_simps [simp]:
  "env_appends [] = []"
  "env_appends (Client_Append x # es) = x # env_appends es"
  "env_appends (Request_Shutdown # es) = env_appends es"
  "env_appends (Sigint # es) = env_appends es"
  "env_appends (Set_Max_Action_Repetitions n # es) = env_appends es"
  "env_appends (Backend a # es) = env_appends es"
  "env_appends (es @ es') = env_appends es @ env_appends es'"
  by (simp_all add: env_appends_def)

lemma env_max_simps [simp]:
  "env_max [] m = m"
  "env_max (Client_Append x # es) m = env_max es m"
  "env_max (Request_Shutdown # es) m = env_max es m"
  "env_max (Sigint # es) m = env_max es m"
  "env_max (Set_Max_Action_Repetitions n # es) m = env_max es n"
  "env_max (Backend a # es) m = env_max es m"
  "env_max (es @ es') m = env_max es' (env_max es m)"
  by (simp_all add: env_max_def)

lemma apply_args_simps [simp]:
  "apply_args [] = []"
  "apply_args (cs @ cs') = apply_args cs @ apply_args cs'"
  "apply_args [Apply_Action x] = [x]"
  "apply_args [Get_Latest_Observation] = []"
  "apply_args [Get_Error] = []"
  "apply_args [Shutdown] = []"
  by (simp_all add: apply_args_def)

lemma obs_calls_simps [simp]:
  "obs_calls [] = 0"
  "obs_calls (cs @ cs') = obs_calls cs + obs_calls cs'"
  "obs_calls [Apply_Action x] = 0"
  "obs_calls [Get_Latest_Observation] = 1"
  "obs_calls [Get_Error] = 0"
  "obs_calls [Shutdown] = 0"
  by (simp_all add: obs_calls_def)



text \<open>
  Events of the environment leave the worker thread's own data alone: they extend the
  desired actions, raise the two flags and set the repetition limit, nothing else.
\<close>

lemma env_step_frame:
  assumes "is_env e"
  shows "pc (step cfg e s) = pc s"
    and "cur_status (step cfg e s) = cur_status s"
    and "status_series (step cfg e s) = status_series s"
    and "observation (step cfg e s) = observation s"
    and "applied_action (step cfg e s) = applied_action s"
    and "timeindex (step cfg e s) = timeindex s"
    and "driver_calls (step cfg e s) = driver_calls s"
    and "loop_is_running (step cfg e s) = loop_is_running s"
    and "start_time (step cfg e s) = start_time s"
    and "desired_action (step cfg e s) = desired_action s @ env_appends [e]"
    and "max_action_repetitions (step cfg e s) = env_max [e] (max_action_repetitions s)"
    and "is_shutdown_requested s \<Longrightarrow> is_shutdown_requested (step cfg e s)"
    and "received_sigint s \<Longrightarrow> received_sigint (step cfg e s)"
  using assms by (cases e; simp add: ts_append_def)+

lemma env_run_frame:
  assumes "env_only es"
  shows "pc (run cfg es s) = pc s"
    and "cur_status (run cfg es s) = cur_status s"
    and "status_series (run cfg es s) = status_series s"
    and "observation (run cfg es s) = observation s"
    and "applied_action (run cfg es s) = applied_action s"
    and "timeindex (run cfg es s) = timeindex s"
    and "driver_calls (run cfg es s) = driver_calls s"
    and "loop_is_running (run cfg es s) = loop_is_running s"
    and "start_time (run cfg es s) = start_time s"
    and "desired_action (run cfg es s) = desired_action s @ env_appends es"
    and "max_action_repetitions (run cfg es s) = env_max es (max_action_repetitions s)"
  using assms
proof (induction es arbitrary: s)
  case Nil
  {
    case 1 show ?case by simp
  next
    case 2 show ?case by simp
  next
    case 3 show ?case by simp
  next
    case 4 show ?case by simp
  next
    case 5 show ?case by simp
  next
    case 6 show ?case by simp
  next
    case 7 show ?case by simp
  next
    case 8 show ?case by simp
  next
    case 9 show ?case by simp
  next
    case 10 show ?case by simp
  next
    case 11 show ?case by simp
  }
next
  case (Cons e es)
  {
    case 1 with Cons.IH(1) show ?case by (simp add: env_step_frame)
  next
    case 2 with Cons.IH(2) show ?case by (simp add: env_step_frame)
  next
    case 3 with Cons.IH(3) show ?case by (simp add: env_step_frame)
  next
    case 4 with Cons.IH(4) show ?case by (simp add: env_step_frame)
  next
    case 5 with Cons.IH(5) show ?case by (simp add: env_step_frame)
  next
    case 6 with Cons.IH(6) show ?case by (simp add: env_step_frame)
  next
    case 7 with Cons.IH(7) show ?case by (simp add: env_step_frame)
  next
    case 8 with Cons.IH(8) show ?case by (simp add: env_step_frame)
  next
    case 9 with Cons.IH(9) show ?case by (simp add: env_step_frame)
  next
    case 10 with Cons.IH(10) show ?case by (cases e) (simp_all add: ts_append_def)
  next
    case 11 with Cons.IH(11) show ?case by (cases e) simp_all
  }
qed

subsection \<open>The invariants hold in every run\<close>

lemmas ts_defs =
  ts_append_def newest_timeindex_def newest_element_def wait_for_timeindex_def ts_at_def

lemmas shape_defs =
  shape_def phase_a_def timed_out_def running_def shut_once_def post_def in_step_def
  after_status_def

lemma inv1_init: "inv1 init_state"
  by (simp add: inv1_def init_state_def phase_a_def)

lemma inv1_env:
  assumes "inv1 s" and "is_env e"
  shows "inv1 (step cfg e s)"
proof -
  have "loc1 (step cfg e s) (pc s)"
    using assms unfolding inv1_def
    by (cases e; cases "pc s") (auto simp: shape_defs ts_defs nth_append)
  with assms(2) show ?thesis
    by (simp add: inv1_def env_step_frame)
qed

lemma inv1_backend:
  assumes "inv1 s"
  shows "inv1 (step cfg (Backend a) s)"
  using assms unfolding inv1_def
  by (cases "pc s")
     (auto simp: shape_defs ts_defs take_Suc_conv_app_nth split: sum.splits option.splits)

lemma inv1_step: "inv1 s \<Longrightarrow> inv1 (step cfg e s)"
  by (cases "is_env e") (auto intro: inv1_env inv1_backend elim: is_env.elims)

lemma inv1_run: "inv1 s \<Longrightarrow> inv1 (run cfg es s)"
  by (induction es arbitrary: s) (simp_all add: inv1_step)

lemma inv1_reach: "inv1 (run cfg es init_state)"
  by (rule inv1_run [OF inv1_init])

lemmas limit_defs =
  reached_def limit_def fresh_def initial_status_def set_error_def default_status_def
  max_actions_message_def late_action_message_def

lemma inv2_init: "inv2 cfg init_state"
  by (simp add: inv2_def init_state_def)

lemma inv2_env:
  assumes "inv2 cfg s" and "is_env e"
  shows "inv2 cfg (step cfg e s)"
proof -
  have "loc2 cfg (step cfg e s) (pc s)"
    using assms unfolding inv2_def
    by (cases e; cases "pc s") (simp_all add: reached_def limit_def fresh_def)
  with assms(2) show ?thesis
    by (simp add: inv2_def env_step_frame)
qed

lemma inv2_backend:
  assumes "inv2 cfg s"
  shows "inv2 cfg (step cfg (Backend a) s)"
  using assms unfolding inv2_def
  by (cases "pc s")
     (auto simp: limit_defs ts_defs
           split: sum.splits option.splits if_splits)

lemma inv2_step: "inv2 cfg s \<Longrightarrow> inv2 cfg (step cfg e s)"
  by (cases "is_env e") (auto intro: inv2_env inv2_backend elim: is_env.elims)

lemma inv2_run: "inv2 cfg s \<Longrightarrow> inv2 cfg (run cfg es s)"
  by (induction es arbitrary: s) (simp_all add: inv2_step)

lemma inv2_reach: "inv2 cfg (run cfg es init_state)"
  by (rule inv2_run [OF inv2_init])

lemma inv3_init: "inv3 init_state"
  by (simp add: inv3_def init_state_def default_status_def)

lemma inv3_step:
  assumes "inv3 s" and "\<not> real_time_mode cfg"
  shows "inv3 (step cfg e s)"
proof (cases e)
  case (Backend a)
  with assms show ?thesis
    unfolding inv3_def
    by (cases "pc s")
       (auto simp: limit_defs ts_defs first_action_status_def
             split: sum.splits option.splits if_splits)
qed (use assms in \<open>simp_all add: inv3_def\<close>)

lemma inv3_run: "inv3 s \<Longrightarrow> \<not> real_time_mode cfg \<Longrightarrow> inv3 (run cfg es s)"
  by (induction es arbitrary: s) (simp_all add: inv3_step)

lemma inv3_reach: "\<not> real_time_mode cfg \<Longrightarrow> inv3 (run cfg es init_state)"
  by (rule inv3_run [OF inv3_init])

subsection \<open>Consequences of the invariants\<close>




lemma inv1_lengths:
  assumes "inv1 s"
  shows "length (applied_action s) \<le> length (status_series s)"
    and "length (status_series s) \<le> length (observation s) \<or>
         status_series s = [first_action_status] \<and> observation s = []"
proof -
  have "length (applied_action s) \<le> length (status_series s) \<and>
        (length (status_series s) \<le> length (observation s) \<or>
         status_series s = [first_action_status] \<and> observation s = [])"
    using assms unfolding inv1_def
    by (cases "pc s")
       (auto simp: phase_a_def timed_out_def post_def shape_def in_step_def after_status_def)
  then show "length (applied_action s) \<le> length (status_series s)"
    and "length (status_series s) \<le> length (observation s) \<or>
         status_series s = [first_action_status] \<and> observation s = []"
    by blast+
qed

lemma inv1_status_append:
  assumes "inv1 s" and "pc s = B_Append_Status"
  shows "length (status_series s) = timeindex s"
    and "length (observation s) = timeindex s + 1"
    and "length (applied_action s) = timeindex s"
  using assms by (simp_all add: inv1_def in_step_def shape_def)

lemma inv1_applied_append:
  assumes "inv1 s" and "pc s = B_Append_Applied y"
  shows "length (applied_action s) = timeindex s"
    and "timeindex s < length (desired_action s)"
  using assms by (simp_all add: inv1_def shape_def)

lemma word_pos_unat: "(0 :: 32 word) < w \<Longrightarrow> 0 < unat w"
  by (simp add: word_less_nat_alt)

lemma limit_facts:
  assumes "inv1 s" and "inv2 cfg s" and "0 < max_number_of_actions cfg"
  shows "length (apply_args (driver_calls s)) \<le> unat (max_number_of_actions cfg) \<and>
         length (applied_action s) \<le> unat (max_number_of_actions cfg) \<and>
         length (status_series s) \<le> unat (max_number_of_actions cfg) + 1 \<and>
         length (observation s) \<le> unat (max_number_of_actions cfg) + 1 \<and>
         (length (status_series s) = unat (max_number_of_actions cfg) + 1 \<longrightarrow>
            (pc s = Post_Shutdown \<or> pc s = Post_Flag \<or> pc s = Terminated) \<and>
            timeindex s = unat (max_number_of_actions cfg) \<and>
            length (observation s) = unat (max_number_of_actions cfg) + 1 \<and>
            obs_calls (driver_calls s) = unat (max_number_of_actions cfg) + 1 \<and>
            length (applied_action s) = unat (max_number_of_actions cfg) \<and>
            unat (max_number_of_actions cfg) \<le> length (desired_action s) \<and>
            apply_args (driver_calls s) =
              take (unat (max_number_of_actions cfg)) (desired_action s))"
proof -
  have pos: "0 < unat (max_number_of_actions cfg)"
    using assms(3) by (rule word_pos_unat)
  show ?thesis
    using assms pos unfolding inv1_def inv2_def
    by (cases "pc s")
       (auto simp: phase_a_def timed_out_def post_def shape_def in_step_def after_status_def
             reached_def limit_def fresh_def)
qed

subsection \<open>Runs without real-time mode\<close>

lemma nonrt_desired_step:
  assumes "\<not> real_time_mode cfg" and "inv3 s"
  shows "desired_action (step cfg e s) = desired_action s @ env_appends [e]"
proof (cases e)
  case (Backend a)
  with assms show ?thesis
    unfolding inv3_def
    by (cases "pc s") (simp_all split: sum.splits option.splits)
qed (simp_all add: ts_append_def)

lemma nonrt_desired_run:
  assumes "\<not> real_time_mode cfg" and "inv3 s"
  shows "desired_action (run cfg es s) = desired_action s @ env_appends es"
  using assms(2)
proof (induction es arbitrary: s)
  case Nil
  then show ?case by simp
next
  case (Cons e es)
  have "desired_action (run cfg es (step cfg e s)) =
        desired_action (step cfg e s) @ env_appends es"
    by (rule Cons.IH) (rule inv3_step [OF Cons.prems assms(1)])
  also have "\<dots> = desired_action s @ env_appends [e] @ env_appends es"
    by (simp add: nonrt_desired_step [OF assms(1) Cons.prems])
  also have "env_appends [e] @ env_appends es = env_appends (e # es)"
    by (metis append_Cons append_Nil env_appends_simps(7))
  finally show ?case by simp
qed

lemma wait_blocks:
  assumes "pc s = B_Wait_Check \<or> pc s = B_Wait_Check_Sigint \<or> pc s = B_Wait"
    and "\<not> is_shutdown_requested s" and "\<not> received_sigint s"
    and "\<not> timeindex s < length (desired_action s)"
  shows "\<exists>p. (p = B_Wait_Check \<or> p = B_Wait_Check_Sigint \<or> p = B_Wait) \<and>
             run cfg (map Backend as) s = s\<lparr>pc := p\<rparr>"
  using assms
proof (induction as arbitrary: s)
  case Nil
  then show ?case by auto
next
  case (Cons a as)
  define q where "q = (if pc s = B_Wait_Check then B_Wait_Check_Sigint
                       else if pc s = B_Wait_Check_Sigint then B_Wait
                       else (B_Wait_Check :: ('a, 'b) pc))"
  have st: "step cfg (Backend a) s = s\<lparr>pc := q\<rparr>"
    using Cons.prems by (auto simp: q_def wait_for_timeindex_def)
  have "\<exists>p. (p = B_Wait_Check \<or> p = B_Wait_Check_Sigint \<or> p = B_Wait) \<and>
          run cfg (map Backend as) (s\<lparr>pc := q\<rparr>) = s\<lparr>pc := q\<rparr>\<lparr>pc := p\<rparr>"
    by (rule Cons.IH) (use Cons.prems in \<open>auto simp: q_def\<close>)
  then have "\<exists>p. (p = B_Wait_Check \<or> p = B_Wait_Check_Sigint \<or> p = B_Wait) \<and>
          run cfg (map Backend as) (s\<lparr>pc := q\<rparr>) = s\<lparr>pc := p\<rparr>"
    by simp
  then show ?case
    unfolding list.map run_Cons st .
qed

subsection \<open>After the first-action timeout\<close>


lemma backend_steps_Cons: "backend_steps (e # es) = backend_steps [e] + backend_steps es"
  by (simp add: backend_steps_def)


subsection \<open>The repetition counter does not wrap\<close>

lemma succ_no_wrap: "(r :: 32 word) < m \<Longrightarrow> unat (r + 1) = unat r + 1"
  by unat_arith

subsection \<open>The status at the index of the action limit\<close>

lemma inv4_step:
  assumes "inv1 s" and "inv2 cfg s" and "inv4 cfg s"
  shows "inv4 cfg (step cfg e s)"
proof (cases e)
  case (Backend a)
  show ?thesis
  proof (cases "0 < max_number_of_actions cfg")
    case True
    then have pos: "0 < unat (max_number_of_actions cfg)"
      by (rule word_pos_unat)
    show ?thesis
      using assms Backend pos unfolding inv1_def inv2_def inv4_def
      by (cases "pc s")
         (auto simp: phase_a_def in_step_def shape_def reached_def ts_append_def nth_append
               split: sum.splits option.splits)
  next
    case False
    then show ?thesis by (simp add: inv4_def)
  qed
qed (use assms in \<open>simp_all add: inv4_def\<close>)

lemma inv_all_run:
  "inv1 s \<Longrightarrow> inv2 cfg s \<Longrightarrow> inv4 cfg s \<Longrightarrow> inv4 cfg (run cfg es s)"
proof (induction es arbitrary: s)
  case Nil
  then show ?case by simp
next
  case (Cons e es)
  show ?case
    using Cons.IH [OF inv1_step [OF Cons.prems(1)] inv2_step [OF Cons.prems(2)]
                      inv4_step [OF Cons.prems]]
    by simp
qed

lemma inv4_reach: "inv4 cfg (run cfg es init_state)"
  by (rule inv_all_run [OF inv1_init inv2_init]) (simp add: inv4_def init_state_def)

subsection \<open>Why the loop is left\<close>

lemma inv5_init: "inv5 cfg init_state"
  by (simp add: inv5_def init_state_def)

lemma inv5_env:
  assumes "inv5 cfg s" and "is_env e"
  shows "inv5 cfg (step cfg e s)"
proof -
  have "loc5 cfg (step cfg e s) (pc s)"
    using assms unfolding inv5_def
    by (cases e; cases "pc s")
       (auto simp: clean_def pre_ok_def exit_ok_def checked_def)
  with assms(2) show ?thesis
    by (simp add: inv5_def env_step_frame)
qed

lemma inv5_backend:
  assumes "inv1 s" and "inv2 cfg s" and "inv5 cfg s"
  shows "inv5 cfg (step cfg (Backend a) s)"
  using assms unfolding inv1_def inv2_def inv5_def
  by (cases "pc s")
     (auto simp: clean_def pre_ok_def exit_ok_def checked_def ts_defs
           phase_a_def in_step_def shape_def limit_defs
           split: sum.splits option.splits if_splits)

lemma inv5_step:
  "inv1 s \<Longrightarrow> inv2 cfg s \<Longrightarrow> inv5 cfg s \<Longrightarrow> inv5 cfg (step cfg e s)"
  by (cases "is_env e") (auto intro: inv5_env inv5_backend elim: is_env.elims)

lemma inv5_run:
  "inv1 s \<Longrightarrow> inv2 cfg s \<Longrightarrow> inv5 cfg s \<Longrightarrow> inv5 cfg (run cfg es s)"
proof (induction es arbitrary: s)
  case Nil
  then show ?case by simp
next
  case (Cons e es)
  show ?case
    using Cons.IH [OF inv1_step [OF Cons.prems(1)] inv2_step [OF Cons.prems(2)]
                      inv5_step [OF Cons.prems]]
    by simp
qed

lemma inv5_reach: "inv5 cfg (run cfg es init_state)"
  by (rule inv5_run [OF inv1_init inv2_init inv5_init])

subsection \<open>Runs that get to the action limit\<close>

lemma track_env:
  assumes "on_track cfg s" and "calm e" and "is_env e"
  shows "on_track cfg (step cfg e s) \<and> rank (step cfg e s) = rank s"
proof -
  have "track_at cfg (step cfg e s) (pc s)"
    using assms unfolding on_track_def
    by (cases e; cases "pc s") simp_all
  with assms show ?thesis
    unfolding on_track_def rank_def
    by (cases e) (simp_all add: ts_append_def)
qed

lemma track_backend:
  assumes "inv1 s" and "inv2 cfg s" and "0 < unat (max_number_of_actions cfg)"
    and "on_track cfg s" and "ans_error a = []"
  shows "on_track cfg (step cfg (Backend a) s) \<and>
         min (18 * unat (max_number_of_actions cfg) + 10) (rank s + 1)
           \<le> rank (step cfg (Backend a) s)"
  using assms unfolding inv1_def inv2_def on_track_def rank_def
  by (cases "pc s")
     (auto simp: ts_defs in_step_def after_status_def shape_def limit_defs
           word_less_nat_alt
           split: sum.splits option.splits if_splits)

lemma track_step:
  assumes "inv1 s" and "inv2 cfg s" and "0 < unat (max_number_of_actions cfg)"
    and "on_track cfg s" and "calm e"
  shows "on_track cfg (step cfg e s) \<and>
         min (18 * unat (max_number_of_actions cfg) + 10) (rank s + backend_steps [e])
           \<le> rank (step cfg e s)"
proof (cases e)
  case (Backend a)
  with assms(5) have "ans_error a = []"
    by simp
  from track_backend [OF assms(1-4) this] Backend show ?thesis
    by (simp add: backend_steps_def)
qed (use track_env [OF assms(4,5)] in \<open>simp_all add: backend_steps_def\<close>)

lemma track_run:
  assumes "0 < unat (max_number_of_actions cfg)"
  shows "inv1 s \<Longrightarrow> inv2 cfg s \<Longrightarrow> on_track cfg s \<Longrightarrow> list_all calm es \<Longrightarrow>
         on_track cfg (run cfg es s) \<and>
         min (18 * unat (max_number_of_actions cfg) + 10) (rank s + backend_steps es)
           \<le> rank (run cfg es s)"
proof (induction es arbitrary: s)
  case Nil
  then show ?case by (simp add: backend_steps_def)
next
  case (Cons e es)
  from Cons.prems(4) have ce: "calm e" and ces: "list_all calm es"
    by simp_all
  note st = track_step [OF Cons.prems(1,2) assms Cons.prems(3) ce]
  note ih = Cons.IH [OF inv1_step [OF Cons.prems(1)] inv2_step [OF Cons.prems(2)]
                        st [THEN conjunct1] ces]
  have "min (18 * unat (max_number_of_actions cfg) + 10)
          (rank s + (backend_steps [e] + backend_steps es))
        \<le> rank (run cfg es (step cfg e s))"
    using st [THEN conjunct2] ih [THEN conjunct2] by linarith
  with ih show ?case
    by (simp add: backend_steps_Cons [of e es])
qed

lemma track_end:
  assumes "on_track cfg s"
    and "18 * unat (max_number_of_actions cfg) + 10 \<le> rank s"
  shows "(pc s = Post_Shutdown \<or> pc s = Post_Flag \<or> pc s = Terminated) \<and>
         length (status_series s) = unat (max_number_of_actions cfg) + 1"
  using assms unfolding on_track_def rank_def
  by (cases "pc s") auto

subsection \<open>The two shutdown flags\<close>













section \<open>The claims\<close>

lemmas run_eval =
  tick_def quiet_def fault_def overheat_def init_state_def
  ts_defs initial_status_def default_status_def set_error_def first_action_status_def
  no_timeout_def exceeds_quarter_def

text \<open>
  C10. Whenever the loop is inside the real-time admission branch, the status series and
  the series of desired actions are both non-empty, so neither call of
  \<^verbatim>\<open>newest_element()\<close> there can fail with \<^verbatim>\<open>EMPTY_SERIES\<close> and the loop never reaches a
  failed location.  At step 0 the check for a late action finds index 0 present and
  does not enter the branch.
\<close>

theorem C10_admission_branch_never_empty:
  "let s = run cfg es init_state in
     (pc s = B_Read_Repetitions \<longrightarrow>
        status_series s \<noteq> [] \<and> desired_action s \<noteq> [] \<and>
        newest_element (status_series s) = Inr (last (status_series s))) \<and>
     (pc s = B_Newest_Desired r \<longrightarrow>
        desired_action s \<noteq> [] \<and>
        newest_element (desired_action s) = Inr (last (desired_action s))) \<and>
     (pc s = B_Check_RT \<and> timeindex s = 0 \<longrightarrow>
        desired_action s \<noteq> [] \<and> pc (step cfg (Backend a) s) = B_Get_Error) \<and>
     pc s \<noteq> Failed e"
proof -
  define s where "s = run cfg es init_state"
  have inv: "loc1 s (pc s)"
    using inv1_reach [of cfg es] by (simp add: inv1_def s_def)
  have "pc s = B_Read_Repetitions \<longrightarrow>
           status_series s \<noteq> [] \<and> desired_action s \<noteq> [] \<and>
           newest_element (status_series s) = Inr (last (status_series s))"
    using inv by (auto simp: in_step_def shape_def newest_element_def)
  moreover have "pc s = B_Newest_Desired r \<longrightarrow>
           desired_action s \<noteq> [] \<and>
           newest_element (desired_action s) = Inr (last (desired_action s))"
    using inv by (auto simp: in_step_def newest_element_def)
  moreover have "pc s = B_Check_RT \<and> timeindex s = 0 \<longrightarrow>
           desired_action s \<noteq> [] \<and> pc (step cfg (Backend a) s) = B_Get_Error"
    using inv by (auto simp: in_step_def newest_timeindex_def)
  moreover have "pc s \<noteq> Failed e"
    using inv by auto
  ultimately show ?thesis
    by (simp add: s_def Let_def)
qed

theorem C10_witness:
  "pc (run rt_cfg (late_at_one @ [tick]) init_state) = B_Read_Repetitions \<and>
   status_series (run rt_cfg (late_at_one @ [tick]) init_state) \<noteq> [] \<and>
   desired_action (run rt_cfg (late_at_one @ [tick]) init_state) \<noteq> [] \<and>
   pc (run rt_cfg (Set_Max_Action_Repetitions 2 # late_at_one @ [tick, tick]) init_state)
     = B_Newest_Desired 0 \<and>
   desired_action
     (run rt_cfg (Set_Max_Action_Repetitions 2 # late_at_one @ [tick, tick]) init_state) \<noteq> [] \<and>
   pc (run rt_cfg check_at_zero init_state) = B_Check_RT \<and>
   timeindex (run rt_cfg check_at_zero init_state) = 0 \<and>
   pc (step rt_cfg (Backend quiet) (run rt_cfg check_at_zero init_state)) = B_Get_Error"
proof -
  have 3: "pc (run rt_cfg check_at_zero init_state) = B_Check_RT"
    and 4: "timeindex (run rt_cfg check_at_zero init_state) = 0"
    by (simp_all add: check_at_zero_def run_eval rt_cfg_def)
  have 1: "pc (run rt_cfg (late_at_one @ [tick]) init_state) = B_Read_Repetitions"
    by (simp add: late_at_one_def first_step_done_def applied_zero_pending_def run_eval rt_cfg_def)
  have 2: "pc (run rt_cfg (Set_Max_Action_Repetitions 2 # late_at_one @ [tick, tick])
             init_state) = B_Newest_Desired 0"
    by (simp add: late_at_one_def first_step_done_def applied_zero_pending_def run_eval rt_cfg_def)
  show ?thesis
    using 1 2 3 4
      C10_admission_branch_never_empty [of rt_cfg "late_at_one @ [tick]"]
      C10_admission_branch_never_empty
        [of rt_cfg "Set_Max_Action_Repetitions 2 # late_at_one @ [tick, tick]" 0]
      C10_admission_branch_never_empty [of rt_cfg check_at_zero _ quiet]
    by (simp add: Let_def)
qed



text \<open>
  C2, as stated, fails: the loop appends the status of a step before it waits for the
  action of that step.  After the append of status 0 the applied series is still empty.
\<close>

theorem C2_counterexample:
  "status_series (run rt_cfg status_zero_appended init_state) = [default_status] \<and>
   observation (run rt_cfg status_zero_appended init_state) = [7] \<and>
   applied_action (run rt_cfg status_zero_appended init_state) = [] \<and>
   pc (run rt_cfg status_zero_appended init_state) = B_Wait_Check"
  by (simp add: status_zero_appended_def status_zero_pending_def run_eval rt_cfg_def)

text \<open>
  C2, amended.  When the loop appends the status of step \<open>t\<close>, that status gets index
  \<open>t\<close>, observation \<open>t\<close> exists and the applied series holds exactly the entries below
  \<open>t\<close>; when the loop appends the applied action of step \<open>t\<close>, that entry gets index \<open>t\<close>
  and desired action \<open>t\<close> exists.  At every point of every run the applied series is no
  longer than the status series, and the status series is no longer than the
  observation series unless its only element is the status of the first-action timeout.
\<close>

theorem C2_step_completeness:
  "let s = run cfg es init_state; s' = step cfg (Backend a) s in
     (pc s = B_Append_Status \<longrightarrow>
        status_series s' = status_series s @ [cur_status s] \<and>
        length (status_series s) = timeindex s \<and>
        length (observation s') = timeindex s + 1 \<and>
        length (applied_action s') = timeindex s) \<and>
     (pc s = B_Append_Applied y \<longrightarrow>
        applied_action s' = applied_action s @ [y] \<and>
        length (applied_action s) = timeindex s \<and>
        timeindex s < length (desired_action s)) \<and>
     length (applied_action s) \<le> length (status_series s) \<and>
     (length (status_series s) \<le> length (observation s) \<or>
      status_series s = [first_action_status] \<and> observation s = [])"
proof -
  define s where "s = run cfg es init_state"
  have inv: "inv1 s"
    unfolding s_def by (rule inv1_reach)
  have "pc s = B_Append_Status \<longrightarrow>
        status_series (step cfg (Backend a) s) = status_series s @ [cur_status s] \<and>
        length (status_series s) = timeindex s \<and>
        length (observation (step cfg (Backend a) s)) = timeindex s + 1 \<and>
        length (applied_action (step cfg (Backend a) s)) = timeindex s"
    using inv1_status_append [OF inv] by (simp add: ts_append_def)
  moreover have "pc s = B_Append_Applied y \<longrightarrow>
        applied_action (step cfg (Backend a) s) = applied_action s @ [y] \<and>
        length (applied_action s) = timeindex s \<and>
        timeindex s < length (desired_action s)"
    using inv1_applied_append [OF inv] by (simp add: ts_append_def)
  ultimately show ?thesis
    using inv1_lengths [OF inv] by (simp add: s_def Let_def)
qed

theorem C2_witness:
  "pc (run rt_cfg status_zero_pending init_state) = B_Append_Status \<and>
   length (status_series (run rt_cfg status_zero_appended init_state)) = 1 \<and>
   length (observation (run rt_cfg status_zero_appended init_state)) = 1 \<and>
   length (applied_action (run rt_cfg status_zero_appended init_state)) = 0 \<and>
   pc (run rt_cfg applied_zero_pending init_state) = B_Append_Applied 5 \<and>
   applied_action (run rt_cfg first_step_done init_state) = [5] \<and>
   timeindex (run rt_cfg applied_zero_pending init_state)
     < length (desired_action (run rt_cfg applied_zero_pending init_state))"
proof -
  have 1: "pc (run rt_cfg status_zero_pending init_state) = B_Append_Status"
    and 2: "timeindex (run rt_cfg status_zero_pending init_state) = 0"
    and 3: "status_series (run rt_cfg status_zero_pending init_state) = []"
    by (simp_all add: status_zero_pending_def run_eval rt_cfg_def)
  have 4: "pc (run rt_cfg applied_zero_pending init_state) = B_Append_Applied 5"
    and 5: "applied_action (run rt_cfg applied_zero_pending init_state) = []"
    and 6: "desired_action (run rt_cfg applied_zero_pending init_state) = [5]"
    by (simp_all add: applied_zero_pending_def run_eval rt_cfg_def)
  show ?thesis
    using 1 2 3 4 5 6
      C2_step_completeness [of rt_cfg status_zero_pending quiet]
      C2_step_completeness [of rt_cfg applied_zero_pending quiet 5]
    by (simp add: Let_def status_zero_appended_def first_step_done_def tick_def)
qed

text \<open>
  C9. With an action limit \<open>N > 0\<close> the driver is never asked to apply more than \<open>N\<close>
  actions.  The loop is left only for one of these reasons: the status of step \<open>N\<close> has
  been appended, the driver reported an error, a late action could not be repeated, the
  first action timed out, or a shutdown request was seen; so the limit does not end the
  loop before step \<open>N\<close>.  In every run that gets as far as appending the status of step
  \<open>N\<close>, the loop has been left at that point; the driver has been asked for \<open>N + 1\<close>
  observations and observation \<open>N\<close> is in the series, but \<^verbatim>\<open>apply_action\<close> has been called
  exactly \<open>N\<close> times, with the desired actions \<open>0\<close> to \<open>N - 1\<close> in this order, and the
  applied series has \<open>N\<close> entries.  And a run does get there: from the head of step 0
  with \<open>N\<close> actions supplied, if no shutdown is requested and the driver reports no error,
  then after \<open>18 N + 10\<close> steps of the worker thread the status of step \<open>N\<close> is appended
  and \<^verbatim>\<open>apply_action\<close> has been called on exactly those \<open>N\<close> actions.
\<close>

theorem C9_apply_called_N_times:
  "0 < max_number_of_actions cfg \<longrightarrow>
   (let s = run cfg es init_state; N = unat (max_number_of_actions cfg) in
      length (apply_args (driver_calls s)) \<le> N \<and>
      length (applied_action s) \<le> N \<and>
      (length (status_series s) = N + 1 \<longrightarrow>
         (pc s = Post_Shutdown \<or> pc s = Post_Flag \<or> pc s = Terminated) \<and>
         obs_calls (driver_calls s) = N + 1 \<and>
         length (observation s) = N + 1 \<and>
         apply_args (driver_calls s) = take N (desired_action s) \<and>
         length (apply_args (driver_calls s)) = N \<and>
         length (applied_action s) = N) \<and>
      (pc s = Post_Shutdown \<or> pc s = Post_Flag \<or> pc s = Terminated \<longrightarrow>
         timeindex s = N \<and> length (status_series s) = N + 1 \<or>
         status_series s \<noteq> [] \<and> error_status (last (status_series s)) = DRIVER_ERROR \<or>
         status_series s \<noteq> [] \<and> error_status (last (status_series s)) = BACKEND_ERROR \<and>
           error_message (last (status_series s)) = ''Next action was not provided in time'' \<or>
         status_series s = [first_action_status] \<or>
         (is_shutdown_requested s \<or> received_sigint s) \<and>
           (status_series s = [] \<or> error_status (last (status_series s)) = NO_ERROR)) \<and>
      (pc s = B_Head \<and> timeindex s = 0 \<and>
       \<not> is_shutdown_requested s \<and> \<not> received_sigint s \<and>
       N \<le> length (desired_action s) \<and> list_all calm es' \<and>
       18 * N + 10 \<le> backend_steps es' \<longrightarrow>
         (let s' = run cfg es' s in
            (pc s' = Post_Shutdown \<or> pc s' = Post_Flag \<or> pc s' = Terminated) \<and>
            length (status_series s') = N + 1 \<and>
            obs_calls (driver_calls s') = N + 1 \<and>
            length (observation s') = N + 1 \<and>
            apply_args (driver_calls s') = take N (desired_action s) \<and>
            length (applied_action s') = N)))"
proof
  assume pos: "0 < max_number_of_actions cfg"
  define s where "s = run cfg es init_state"
  define N where "N = unat (max_number_of_actions cfg)"
  have i1: "inv1 s" and i2: "inv2 cfg s" and i5: "inv5 cfg s"
    unfolding s_def by (rule inv1_reach inv2_reach inv5_reach)+
  have posN: "0 < unat (max_number_of_actions cfg)"
    using pos by (rule word_pos_unat)
  note facts = limit_facts [OF i1 i2 pos, folded N_def]
  have part1: "length (apply_args (driver_calls s)) \<le> N \<and>
      length (applied_action s) \<le> N \<and>
      (length (status_series s) = N + 1 \<longrightarrow>
         (pc s = Post_Shutdown \<or> pc s = Post_Flag \<or> pc s = Terminated) \<and>
         obs_calls (driver_calls s) = N + 1 \<and>
         length (observation s) = N + 1 \<and>
         apply_args (driver_calls s) = take N (desired_action s) \<and>
         length (apply_args (driver_calls s)) = N \<and>
         length (applied_action s) = N)"
    using facts by simp
  have part2: "pc s = Post_Shutdown \<or> pc s = Post_Flag \<or> pc s = Terminated \<longrightarrow>
         timeindex s = N \<and> length (status_series s) = N + 1 \<or>
         status_series s \<noteq> [] \<and> error_status (last (status_series s)) = DRIVER_ERROR \<or>
         status_series s \<noteq> [] \<and> error_status (last (status_series s)) = BACKEND_ERROR \<and>
           error_message (last (status_series s)) = ''Next action was not provided in time'' \<or>
         status_series s = [first_action_status] \<or>
         (is_shutdown_requested s \<or> received_sigint s) \<and>
           (status_series s = [] \<or> error_status (last (status_series s)) = NO_ERROR)"
    using i5 unfolding inv5_def N_def
    by (auto simp: exit_ok_def clean_def late_action_message_def)
  have part3: "(pc (run cfg es' s) = Post_Shutdown \<or> pc (run cfg es' s) = Post_Flag \<or>
             pc (run cfg es' s) = Terminated) \<and>
            length (status_series (run cfg es' s)) = N + 1 \<and>
            obs_calls (driver_calls (run cfg es' s)) = N + 1 \<and>
            length (observation (run cfg es' s)) = N + 1 \<and>
            apply_args (driver_calls (run cfg es' s)) = take N (desired_action s) \<and>
            length (applied_action (run cfg es' s)) = N"
    if at: "pc s = B_Head" and t0: "timeindex s = 0"
      and nr: "\<not> is_shutdown_requested s" and ns: "\<not> received_sigint s"
      and supplied: "N \<le> length (desired_action s)"
      and calm: "list_all calm es'" and long: "18 * N + 10 \<le> backend_steps es'"
  proof -
    have start: "on_track cfg s"
      using at t0 nr ns supplied by (simp add: on_track_def N_def)
    have r0: "rank s = 0"
      using at t0 by (simp add: rank_def)
    note tr = track_run [OF posN i1 i2 start calm]
    have far: "18 * unat (max_number_of_actions cfg) + 10 \<le> rank (run cfg es' s)"
      using tr [THEN conjunct2] long r0 by (simp add: N_def)
    note fin = track_end [OF tr [THEN conjunct1] far, folded N_def]
    have reach': "inv1 (run cfg es' s)" "inv2 cfg (run cfg es' s)"
      using i1 i2 by (simp_all add: inv1_run inv2_run)
    note facts' = limit_facts [OF reach' pos, folded N_def]
    have grow: "take N (desired_action (run cfg es' s)) = take N (desired_action s)"
    proof -
      have "\<exists>xs. desired_action (run cfg es' s) = desired_action s @ xs"
      proof (induction es' arbitrary: s)
        case Nil
        then show ?case by simp
      next
        case (Cons e es'')
        have "\<exists>ys. desired_action (step cfg e s) = desired_action s @ ys"
        proof (cases e)
          case (Backend a)
          then show ?thesis
            by (cases "pc s") (auto simp: ts_append_def split: sum.splits option.splits)
        qed (simp_all add: ts_append_def)
        with Cons.IH [of "step cfg e s"] show ?case
          by auto
      qed
      with supplied show ?thesis
        by auto
    qed
    show ?thesis
      using fin facts' grow by simp
  qed
  show "let s = run cfg es init_state; N = unat (max_number_of_actions cfg) in
      length (apply_args (driver_calls s)) \<le> N \<and>
      length (applied_action s) \<le> N \<and>
      (length (status_series s) = N + 1 \<longrightarrow>
         (pc s = Post_Shutdown \<or> pc s = Post_Flag \<or> pc s = Terminated) \<and>
         obs_calls (driver_calls s) = N + 1 \<and>
         length (observation s) = N + 1 \<and>
         apply_args (driver_calls s) = take N (desired_action s) \<and>
         length (apply_args (driver_calls s)) = N \<and>
         length (applied_action s) = N) \<and>
      (pc s = Post_Shutdown \<or> pc s = Post_Flag \<or> pc s = Terminated \<longrightarrow>
         timeindex s = N \<and> length (status_series s) = N + 1 \<or>
         status_series s \<noteq> [] \<and> error_status (last (status_series s)) = DRIVER_ERROR \<or>
         status_series s \<noteq> [] \<and> error_status (last (status_series s)) = BACKEND_ERROR \<and>
           error_message (last (status_series s)) = ''Next action was not provided in time'' \<or>
         status_series s = [first_action_status] \<or>
         (is_shutdown_requested s \<or> received_sigint s) \<and>
           (status_series s = [] \<or> error_status (last (status_series s)) = NO_ERROR)) \<and>
      (pc s = B_Head \<and> timeindex s = 0 \<and>
       \<not> is_shutdown_requested s \<and> \<not> received_sigint s \<and>
       N \<le> length (desired_action s) \<and> list_all calm es' \<and>
       18 * N + 10 \<le> backend_steps es' \<longrightarrow>
         (let s' = run cfg es' s in
            (pc s' = Post_Shutdown \<or> pc s' = Post_Flag \<or> pc s' = Terminated) \<and>
            length (status_series s') = N + 1 \<and>
            obs_calls (driver_calls s') = N + 1 \<and>
            length (observation s') = N + 1 \<and>
            apply_args (driver_calls s') = take N (desired_action s) \<and>
            length (applied_action s') = N))"
    unfolding Let_def s_def [symmetric] N_def [symmetric]
    using part1 part2 part3 by blast
qed

theorem C9_witness:
  "0 < max_number_of_actions three_action_cfg \<and>
   unat (max_number_of_actions three_action_cfg) = 3 \<and>
   pc (run three_action_cfg three_supplied init_state) = B_Head \<and>
   timeindex (run three_action_cfg three_supplied init_state) = 0 \<and>
   desired_action (run three_action_cfg three_supplied init_state) = [5, 6, 8] \<and>
   list_all calm calm_to_limit \<and> backend_steps calm_to_limit = 64 \<and>
   apply_args (driver_calls
     (run three_action_cfg calm_to_limit (run three_action_cfg three_supplied init_state)))
     = [5, 6, 8] \<and>
   length (status_series
     (run three_action_cfg calm_to_limit (run three_action_cfg three_supplied init_state)))
     = 4 \<and>
   length (applied_action
     (run three_action_cfg calm_to_limit (run three_action_cfg three_supplied init_state)))
     = 3"
proof -
  let ?S = "run three_action_cfg three_supplied init_state"
  have 1: "0 < max_number_of_actions three_action_cfg"
    and 2: "unat (max_number_of_actions three_action_cfg) = 3"
    by (simp_all add: three_action_cfg_def)
  have 3: "pc ?S = B_Head" and 4: "timeindex ?S = 0"
    and 5: "\<not> is_shutdown_requested ?S" and 6: "\<not> received_sigint ?S"
    and 7: "desired_action ?S = [5, 6, 8]"
    by (simp_all add: three_supplied_def run_eval three_action_cfg_def)
  have 8: "list_all calm calm_to_limit" and 9: "backend_steps calm_to_limit = 64"
    by (simp_all add: calm_to_limit_def sixteen_ticks_def tick_def quiet_def backend_steps_def)
  have hyp: "pc ?S = B_Head \<and> timeindex ?S = 0 \<and>
       \<not> is_shutdown_requested ?S \<and> \<not> received_sigint ?S \<and>
       unat (max_number_of_actions three_action_cfg) \<le> length (desired_action ?S) \<and>
       list_all calm calm_to_limit \<and>
       18 * unat (max_number_of_actions three_action_cfg) + 10 \<le> backend_steps calm_to_limit"
    using 2 3 4 5 6 7 8 9 by simp
  note th = C9_apply_called_N_times
      [where cfg = three_action_cfg and es = three_supplied and es' = calm_to_limit,
       unfolded Let_def, THEN mp, OF 1,
       THEN conjunct2, THEN conjunct2, THEN conjunct2, THEN conjunct2, THEN mp, OF hyp]
  show ?thesis
    using 1 2 3 4 7 8 9 th by simp
qed

text \<open>
  C8. Without real-time mode the loop never appends to the desired actions: in every run
  that series consists of exactly the actions the clients appended.  Every status in the
  status series has \<open>action_repetitions = 0\<close>.  While the action of the current step is
  missing and no shutdown is requested, any number of steps of the worker thread leaves
  the loop in its wait (lines 329-332, with the two reads of the shutdown check) and
  changes nothing else.
\<close>

theorem C8_non_real_time_mode:
  "\<not> real_time_mode cfg \<longrightarrow>
   (let s = run cfg es init_state in
      desired_action s = env_appends es \<and>
      list_all (\<lambda>x. action_repetitions x = 0) (status_series s) \<and>
      ((pc s = B_Wait_Check \<or> pc s = B_Wait_Check_Sigint \<or> pc s = B_Wait) \<and>
       \<not> is_shutdown_requested s \<and> \<not> received_sigint s \<and>
       \<not> timeindex s < length (desired_action s) \<longrightarrow>
         (let s' = run cfg (map Backend as) s in
            (pc s' = B_Wait_Check \<or> pc s' = B_Wait_Check_Sigint \<or> pc s' = B_Wait) \<and>
            s'\<lparr>pc := pc s\<rparr> = s)))"
proof
  assume nonrt: "\<not> real_time_mode cfg"
  define s where "s = run cfg es init_state"
  have "desired_action s = env_appends es"
    using nonrt_desired_run [OF nonrt inv3_init, of es]
    by (simp add: s_def init_state_def)
  moreover have "list_all (\<lambda>x. action_repetitions x = 0) (status_series s)"
    using inv3_reach [OF nonrt, of es] by (simp add: s_def inv3_def)
  moreover have "(pc (run cfg (map Backend as) s) = B_Wait_Check \<or>
                  pc (run cfg (map Backend as) s) = B_Wait_Check_Sigint \<or>
                  pc (run cfg (map Backend as) s) = B_Wait) \<and>
                 (run cfg (map Backend as) s)\<lparr>pc := pc s\<rparr> = s"
    if "pc s = B_Wait_Check \<or> pc s = B_Wait_Check_Sigint \<or> pc s = B_Wait"
      and "\<not> is_shutdown_requested s" and "\<not> received_sigint s"
      and "\<not> timeindex s < length (desired_action s)"
  proof -
    from wait_blocks [OF that, of cfg as]
    obtain p where "p = B_Wait_Check \<or> p = B_Wait_Check_Sigint \<or> p = B_Wait"
      and "run cfg (map Backend as) s = s\<lparr>pc := p\<rparr>"
      by blast
    then show ?thesis by auto
  qed
  ultimately show "let s = run cfg es init_state in
      desired_action s = env_appends es \<and>
      list_all (\<lambda>x. action_repetitions x = 0) (status_series s) \<and>
      ((pc s = B_Wait_Check \<or> pc s = B_Wait_Check_Sigint \<or> pc s = B_Wait) \<and>
       \<not> is_shutdown_requested s \<and> \<not> received_sigint s \<and>
       \<not> timeindex s < length (desired_action s) \<longrightarrow>
         (let s' = run cfg (map Backend as) s in
            (pc s' = B_Wait_Check \<or> pc s' = B_Wait_Check_Sigint \<or> pc s' = B_Wait) \<and>
            s'\<lparr>pc := pc s\<rparr> = s))"
    unfolding s_def [symmetric] Let_def by blast
qed

theorem C8_witness:
  "\<not> real_time_mode blocking_cfg \<and>
   pc (run blocking_cfg limit_hit init_state) = B_Wait_Check \<and>
   timeindex (run blocking_cfg limit_hit init_state) = 1 \<and>
   desired_action (run blocking_cfg limit_hit init_state) = [5] \<and>
   \<not> is_shutdown_requested (run blocking_cfg limit_hit init_state) \<and>
   \<not> received_sigint (run blocking_cfg limit_hit init_state) \<and>
   list_all (\<lambda>x. action_repetitions x = 0)
     (status_series (run blocking_cfg limit_hit init_state)) \<and>
   (pc (run blocking_cfg (map Backend [quiet, quiet, quiet, quiet])
         (run blocking_cfg limit_hit init_state)) = B_Wait_Check \<or>
    pc (run blocking_cfg (map Backend [quiet, quiet, quiet, quiet])
         (run blocking_cfg limit_hit init_state)) = B_Wait_Check_Sigint \<or>
    pc (run blocking_cfg (map Backend [quiet, quiet, quiet, quiet])
         (run blocking_cfg limit_hit init_state)) = B_Wait)"
proof -
  let ?S = "run blocking_cfg limit_hit init_state"
  have 1: "\<not> real_time_mode blocking_cfg"
    by (simp add: blocking_cfg_def)
  have 2: "pc ?S = B_Wait_Check"
    and 3: "timeindex ?S = 1"
    and 4: "desired_action ?S = [5]"
    and 5: "\<not> is_shutdown_requested ?S"
    and 6: "\<not> received_sigint ?S"
    by (simp_all add: limit_hit_def first_step_done_def applied_zero_pending_def run_eval
          blocking_cfg_def)
  have 7: "\<not> timeindex ?S < length (desired_action ?S)"
    using 3 4 by simp
  have 8: "pc ?S = B_Wait_Check \<or> pc ?S = B_Wait_Check_Sigint \<or> pc ?S = B_Wait"
    using 2 by simp
  note th = C8_non_real_time_mode
      [of blocking_cfg limit_hit "[quiet, quiet, quiet, quiet]", unfolded Let_def,
       THEN mp, OF 1]
  have hyp: "(pc ?S = B_Wait_Check \<or> pc ?S = B_Wait_Check_Sigint \<or> pc ?S = B_Wait) \<and>
       \<not> is_shutdown_requested ?S \<and> \<not> received_sigint ?S \<and>
       \<not> timeindex ?S < length (desired_action ?S)"
    using 8 5 6 7 by (intro conjI)
  note stay = th [THEN conjunct2, THEN conjunct2, THEN mp, OF hyp, THEN conjunct1]
  note zero = th [THEN conjunct2, THEN conjunct1]
  show ?thesis
    using 1 2 3 4 5 6 zero stay by (intro conjI)
qed







text \<open>
  C3. Let the loop be about to poll the driver in step \<open>t\<close> (line 310) and let
  \<^verbatim>\<open>get_error()\<close> return a non-empty message.  Whatever status the step has built so far,
  and whatever the environment does in between, the next step of the worker thread
  appends at index \<open>t\<close> a status with kind \<^verbatim>\<open>DRIVER_ERROR\<close> and that message, the loop
  is left, and the step after calls \<^verbatim>\<open>driver.shutdown()\<close>; no action is applied any more.
\<close>

theorem C3_driver_error_overrides:
  "let s = run cfg es init_state in
     pc s = B_Get_Error \<and> ans_error a \<noteq> [] \<and> env_only E1 \<and> env_only E2 \<longrightarrow>
     (let s' = run cfg (Backend a # E1 @ Backend a' # E2 @ [Backend a'']) s in
        length (status_series s) = timeindex s \<and>
        status_series s' =
          status_series s @ [set_error DRIVER_ERROR (ans_error a) (cur_status s)] \<and>
        error_status (status_series s' ! timeindex s) = DRIVER_ERROR \<and>
        error_message (status_series s' ! timeindex s) = ans_error a \<and>
        pc (run cfg (Backend a # E1 @ [Backend a']) s) = Post_Shutdown \<and>
        driver_calls s' = driver_calls s @ [Get_Error, Shutdown] \<and>
        pc s' = Post_Flag)"
proof -
  define s where "s = run cfg es init_state"
  have "length (status_series s) = timeindex s \<and>
        status_series (run cfg (Backend a # E1 @ Backend a' # E2 @ [Backend a'']) s) =
          status_series s @ [set_error DRIVER_ERROR (ans_error a) (cur_status s)] \<and>
        error_status
          (status_series (run cfg (Backend a # E1 @ Backend a' # E2 @ [Backend a'']) s)
             ! timeindex s) = DRIVER_ERROR \<and>
        error_message
          (status_series (run cfg (Backend a # E1 @ Backend a' # E2 @ [Backend a'']) s)
             ! timeindex s) = ans_error a \<and>
        pc (run cfg (Backend a # E1 @ [Backend a']) s) = Post_Shutdown \<and>
        driver_calls (run cfg (Backend a # E1 @ Backend a' # E2 @ [Backend a'']) s) =
          driver_calls s @ [Get_Error, Shutdown] \<and>
        pc (run cfg (Backend a # E1 @ Backend a' # E2 @ [Backend a'']) s) = Post_Flag"
    if at: "pc s = B_Get_Error" and err: "ans_error a \<noteq> []"
      and e1: "env_only E1" and e2: "env_only E2"
  proof -
    have "inv1 s"
      unfolding s_def by (rule inv1_reach)
    with at have len: "timeindex s = length (status_series s)"
      by (simp add: inv1_def in_step_def shape_def)
    show ?thesis
      using at err
      by (simp add: env_run_frame [OF e1] env_run_frame [OF e2] set_error_def ts_append_def
            len)
  qed
  then show ?thesis
    unfolding s_def [symmetric] Let_def by blast
qed

theorem C3_witness:
  "pc (run rt_cfg (late_at_one @ [tick, tick]) init_state) = B_Get_Error \<and>
   error_status (cur_status (run rt_cfg (late_at_one @ [tick, tick]) init_state)) = BACKEND_ERROR \<and>
   ans_error overheat \<noteq> [] \<and>
   status_series
     (run rt_cfg (Backend overheat # [Client_Append 6] @ Backend quiet # [] @ [Backend quiet])
        (run rt_cfg (late_at_one @ [tick, tick]) init_state))
     ! 1 = \<lparr>error_status = DRIVER_ERROR, error_message = ''overheat'', action_repetitions = 0\<rparr>"
proof -
  have 1: "pc (run rt_cfg (late_at_one @ [tick, tick]) init_state) = B_Get_Error"
    and 2: "cur_status (run rt_cfg (late_at_one @ [tick, tick]) init_state) =
              \<lparr>error_status = BACKEND_ERROR,
               error_message = ''Next action was not provided in time'',
               action_repetitions = 0\<rparr>"
    and 3: "status_series (run rt_cfg (late_at_one @ [tick, tick]) init_state) = [default_status]"
    by (simp_all add: late_at_one_def first_step_done_def applied_zero_pending_def run_eval rt_cfg_def)
  have 4: "ans_error overheat \<noteq> []"
    by (simp add: overheat_def)
  have 5: "env_only [Client_Append 6 :: (nat, nat) event]" "env_only ([] :: (nat, nat) event list)"
    by simp_all
  have "status_series
     (run rt_cfg (Backend overheat # [Client_Append 6] @ Backend quiet # [] @ [Backend quiet])
        (run rt_cfg (late_at_one @ [tick, tick]) init_state)) =
     status_series (run rt_cfg (late_at_one @ [tick, tick]) init_state) @
       [set_error DRIVER_ERROR (ans_error overheat)
          (cur_status (run rt_cfg (late_at_one @ [tick, tick]) init_state))]"
    using 1 4 5
      C3_driver_error_overrides
        [of rt_cfg "late_at_one @ [tick, tick]" overheat "[Client_Append 6]" "[]" quiet quiet]
    unfolding Let_def by blast
  then show ?thesis
    using 1 2 3 4 by (simp add: set_error_def overheat_def)
qed

text \<open>
  C1, as stated, fails when the driver reports a fault in the step in which the
  repetitions are used up: the status appended for that step is the driver error, not
  the backend error.  Here step 1 has no new action, no repetition is allowed, and the
  driver reports "overheat".
\<close>

theorem C1_counterexample:
  "real_time_mode rt_cfg \<and>
   pc (run rt_cfg late_at_one init_state) = B_Check_RT \<and>
   timeindex (run rt_cfg late_at_one init_state) = 1 \<and>
   newest_timeindex (desired_action (run rt_cfg late_at_one init_state)) = Some 0 \<and>
   action_repetitions (last (status_series (run rt_cfg late_at_one init_state))) = 0 \<and>
   max_action_repetitions (run rt_cfg late_at_one init_state) = 0 \<and>
   status_series (run rt_cfg late_and_fault init_state) =
     [default_status,
      \<lparr>error_status = DRIVER_ERROR, error_message = ''overheat'', action_repetitions = 0\<rparr>]"
  by (simp add: late_and_fault_def late_at_one_def first_step_done_def applied_zero_pending_def run_eval rt_cfg_def)

text \<open>
  C1, amended.  Let the loop, in real-time mode, find at step \<open>t\<close> that the newest
  desired action has an index below \<open>t\<close>, let \<open>r\<close> be the repetition counter of the
  newest status and \<open>m\<close> the repetition limit at the moment the loop compares the two.
  If \<open>r < m\<close>, the loop appends to the desired actions a copy of the element that is the
  newest when it reads it, and the status appended for step \<open>t\<close> has
  \<open>action_repetitions = r + 1\<close> (without wrap-around).  Otherwise the status appended for
  step \<open>t\<close> is \<^verbatim>\<open>BACKEND_ERROR\<close>, "Next action was not provided in time", provided that
  \<^verbatim>\<open>get_error()\<close> returns the empty string in this step, and \<^verbatim>\<open>DRIVER_ERROR\<close> with the
  driver's message if it does not; in both cases the loop is left.  The environment
  may act between any two steps of the worker thread.
\<close>

theorem C1_real_time_admission:
  "let s = run cfg es init_state;
       r = action_repetitions (last (status_series s));
       m = env_max E1 (max_action_repetitions s);
       d = desired_action s @ env_appends E1 @ env_appends E2
   in
     pc s = B_Check_RT \<and> real_time_mode cfg \<and>
     newest_timeindex (desired_action s) = Some i \<and> i < timeindex s \<and>
     env_only E1 \<and> env_only E2 \<and> env_only E3 \<and> env_only E4 \<and> env_only E5 \<longrightarrow>
     newest_element (status_series s) = Inr (last (status_series s)) \<and>
     length (status_series s) = timeindex s \<and>
     (r < m \<longrightarrow>
        (let s' = run cfg (Backend a1 # E1 @ Backend a2 # E2 @ Backend a3 # E3 @
                           Backend a4 # E4 @ Backend a5 # E5 @ [Backend a6]) s
         in
           desired_action s' = d @ env_appends E3 @ [last d] @ env_appends E4 @ env_appends E5 \<and>
           status_series s' =
             status_series s @
               [if ans_error a5 = [] then (cur_status s)\<lparr>action_repetitions := r + 1\<rparr>
                else set_error DRIVER_ERROR (ans_error a5)
                       ((cur_status s)\<lparr>action_repetitions := r + 1\<rparr>)] \<and>
           action_repetitions (status_series s' ! timeindex s) = r + 1 \<and>
           unat (r + 1) = unat r + 1)) \<and>
     (\<not> r < m \<longrightarrow>
        (let s' = run cfg (Backend a1 # E1 @ Backend a2 # E2 @ Backend a3 # E3 @ [Backend a4]) s
         in
           status_series s' =
             status_series s @
               [if ans_error a3 = []
                then set_error BACKEND_ERROR ''Next action was not provided in time''
                       (cur_status s)
                else set_error DRIVER_ERROR (ans_error a3) (cur_status s)] \<and>
           pc s' = Post_Shutdown))"
proof -
  define s where "s = run cfg es init_state"
  define r where "r = action_repetitions (last (status_series s))"
  define m where "m = env_max E1 (max_action_repetitions s)"
  define d where "d = desired_action s @ env_appends E1 @ env_appends E2"
  have main:
    "newest_element (status_series s) = Inr (last (status_series s)) \<and>
     length (status_series s) = timeindex s \<and>
     (r < m \<longrightarrow>
        desired_action (run cfg (Backend a1 # E1 @ Backend a2 # E2 @ Backend a3 # E3 @
                           Backend a4 # E4 @ Backend a5 # E5 @ [Backend a6]) s)
          = d @ env_appends E3 @ [last d] @ env_appends E4 @ env_appends E5 \<and>
        status_series (run cfg (Backend a1 # E1 @ Backend a2 # E2 @ Backend a3 # E3 @
                           Backend a4 # E4 @ Backend a5 # E5 @ [Backend a6]) s) =
             status_series s @
               [if ans_error a5 = [] then (cur_status s)\<lparr>action_repetitions := r + 1\<rparr>
                else set_error DRIVER_ERROR (ans_error a5)
                       ((cur_status s)\<lparr>action_repetitions := r + 1\<rparr>)] \<and>
        action_repetitions
          (status_series (run cfg (Backend a1 # E1 @ Backend a2 # E2 @ Backend a3 # E3 @
                           Backend a4 # E4 @ Backend a5 # E5 @ [Backend a6]) s)
             ! timeindex s) = r + 1 \<and>
        unat (r + 1) = unat r + 1) \<and>
     (\<not> r < m \<longrightarrow>
        status_series
          (run cfg (Backend a1 # E1 @ Backend a2 # E2 @ Backend a3 # E3 @ [Backend a4]) s) =
             status_series s @
               [if ans_error a3 = []
                then set_error BACKEND_ERROR ''Next action was not provided in time''
                       (cur_status s)
                else set_error DRIVER_ERROR (ans_error a3) (cur_status s)] \<and>
        pc (run cfg (Backend a1 # E1 @ Backend a2 # E2 @ Backend a3 # E3 @ [Backend a4]) s)
          = Post_Shutdown)"
    if at: "pc s = B_Check_RT" and rt: "real_time_mode cfg"
      and newest: "newest_timeindex (desired_action s) = Some i" and late: "i < timeindex s"
      and e1: "env_only E1" and e2: "env_only E2" and e3: "env_only E3"
      and e4: "env_only E4" and e5: "env_only E5"
  proof -
    have "inv1 s"
      unfolding s_def by (rule inv1_reach)
    with at have len: "timeindex s = length (status_series s)"
      by (simp add: inv1_def in_step_def shape_def)
    with late have st_ne: "status_series s \<noteq> []"
      by auto
    from newest have d_ne: "desired_action s \<noteq> []"
      by (auto simp: newest_timeindex_def split: if_splits)
    have first: "newest_element (status_series s) = Inr (last (status_series s))"
      using st_ne by (simp add: newest_element_def)
    have rep: "r < m \<longrightarrow>
        desired_action (run cfg (Backend a1 # E1 @ Backend a2 # E2 @ Backend a3 # E3 @
                           Backend a4 # E4 @ Backend a5 # E5 @ [Backend a6]) s)
          = d @ env_appends E3 @ [last d] @ env_appends E4 @ env_appends E5 \<and>
        status_series (run cfg (Backend a1 # E1 @ Backend a2 # E2 @ Backend a3 # E3 @
                           Backend a4 # E4 @ Backend a5 # E5 @ [Backend a6]) s) =
             status_series s @
               [if ans_error a5 = [] then (cur_status s)\<lparr>action_repetitions := r + 1\<rparr>
                else set_error DRIVER_ERROR (ans_error a5)
                       ((cur_status s)\<lparr>action_repetitions := r + 1\<rparr>)]"
      using at rt newest late st_ne d_ne
      by (simp add: env_run_frame [OF e1] env_run_frame [OF e2] env_run_frame [OF e3]
            env_run_frame [OF e4] env_run_frame [OF e5]
            newest_element_def ts_append_def set_error_def r_def m_def d_def)
    have idx: "r < m \<longrightarrow> action_repetitions
          (status_series (run cfg (Backend a1 # E1 @ Backend a2 # E2 @ Backend a3 # E3 @
                           Backend a4 # E4 @ Backend a5 # E5 @ [Backend a6]) s)
             ! timeindex s) = r + 1"
      using rep by (simp add: len set_error_def)
    have stop: "\<not> r < m \<longrightarrow>
        status_series
          (run cfg (Backend a1 # E1 @ Backend a2 # E2 @ Backend a3 # E3 @ [Backend a4]) s) =
             status_series s @
               [if ans_error a3 = []
                then set_error BACKEND_ERROR ''Next action was not provided in time''
                       (cur_status s)
                else set_error DRIVER_ERROR (ans_error a3) (cur_status s)] \<and>
        pc (run cfg (Backend a1 # E1 @ Backend a2 # E2 @ Backend a3 # E3 @ [Backend a4]) s)
          = Post_Shutdown"
      using at rt newest late st_ne d_ne
      by (simp add: env_run_frame [OF e1] env_run_frame [OF e2] env_run_frame [OF e3]
            newest_element_def ts_append_def set_error_def r_def m_def)
    show ?thesis
      using first len rep idx stop succ_no_wrap [of r m] by simp
  qed
  show ?thesis
    unfolding Let_def s_def [symmetric] r_def [symmetric] m_def [symmetric] d_def [symmetric]
    using main by blast
qed

theorem C1_witness:
  "pc (run rt_cfg repeat_at_one init_state) = B_Check_RT \<and>
   real_time_mode rt_cfg \<and>
   newest_timeindex (desired_action (run rt_cfg repeat_at_one init_state)) = Some 0 \<and>
   0 < timeindex (run rt_cfg repeat_at_one init_state) \<and>
   action_repetitions (last (status_series (run rt_cfg repeat_at_one init_state)))
     < env_max [] (max_action_repetitions (run rt_cfg repeat_at_one init_state)) \<and>
   desired_action
     (run rt_cfg (Backend quiet # [] @ Backend quiet # [] @ Backend quiet # [Client_Append 6] @
                  Backend quiet # [] @ Backend quiet # [] @ [Backend quiet])
        (run rt_cfg repeat_at_one init_state)) = [5, 6, 5] \<and>
   action_repetitions
     (status_series
        (run rt_cfg (Backend quiet # [] @ Backend quiet # [] @ Backend quiet # [Client_Append 6] @
                     Backend quiet # [] @ Backend quiet # [] @ [Backend quiet])
           (run rt_cfg repeat_at_one init_state)) ! 1) = 1 \<and>
   pc (run rt_cfg late_at_one init_state) = B_Check_RT \<and>
   \<not> action_repetitions (last (status_series (run rt_cfg late_at_one init_state)))
     < env_max [] (max_action_repetitions (run rt_cfg late_at_one init_state)) \<and>
   status_series
     (run rt_cfg (Backend quiet # [] @ Backend quiet # [] @ Backend quiet # [] @ [Backend quiet])
        (run rt_cfg late_at_one init_state)) =
     [default_status,
      \<lparr>error_status = BACKEND_ERROR,
       error_message = ''Next action was not provided in time'', action_repetitions = 0\<rparr>]"
proof -
  let ?S = "run rt_cfg repeat_at_one init_state"
  let ?T = "run rt_cfg late_at_one init_state"
  let ?e = "[] :: (nat, nat) event list"
  let ?c = "[Client_Append 6] :: (nat, nat) event list"
  have rt: "real_time_mode rt_cfg"
    by (simp add: rt_cfg_def)
  have env: "env_only ([] :: (nat, nat) event list)"
    and env6: "env_only [Client_Append 6 :: (nat, nat) event]"
    by simp_all
  have a1: "pc ?S = B_Check_RT"
    and a2: "newest_timeindex (desired_action ?S) = Some 0"
    and a3: "timeindex ?S = 1"
    and a4: "action_repetitions (last (status_series ?S))
               < env_max [] (max_action_repetitions ?S)"
    and a5: "desired_action ?S = [5]"
    and a6: "last (status_series ?S) = default_status"
    by (simp_all add: repeat_at_one_def late_at_one_def first_step_done_def applied_zero_pending_def run_eval rt_cfg_def)
  have b1: "pc ?T = B_Check_RT"
    and b2: "newest_timeindex (desired_action ?T) = Some 0"
    and b3: "timeindex ?T = 1"
    and b4: "\<not> action_repetitions (last (status_series ?T))
               < env_max [] (max_action_repetitions ?T)"
    and b5: "status_series ?T = [default_status]"
    and b6: "cur_status ?T = default_status"
    by (simp_all add: late_at_one_def first_step_done_def applied_zero_pending_def run_eval rt_cfg_def)
  have a7: "0 < timeindex ?S" and b7: "0 < timeindex ?T"
    using a3 b3 by simp_all
  have hyp_a: "pc ?S = B_Check_RT \<and> real_time_mode rt_cfg \<and>
      newest_timeindex (desired_action ?S) = Some 0 \<and> 0 < timeindex ?S \<and>
      env_only ?e \<and> env_only ?e \<and> env_only ?c \<and> env_only ?e \<and> env_only ?e"
    using rt env env6 a1 a2 a7 by (intro conjI)
  have hyp_b: "pc ?T = B_Check_RT \<and> real_time_mode rt_cfg \<and>
      newest_timeindex (desired_action ?T) = Some 0 \<and> 0 < timeindex ?T \<and>
      env_only ?e \<and> env_only ?e \<and> env_only ?e \<and> env_only ?e \<and> env_only ?e"
    using rt env b1 b2 b7 by (intro conjI)
  note th_a = C1_real_time_admission
        [of rt_cfg repeat_at_one "[]" "[]" 0 "[Client_Append 6]" "[]" "[]"
            quiet quiet quiet quiet quiet quiet, unfolded Let_def, THEN mp, OF hyp_a]
  note th_b = C1_real_time_admission
        [of rt_cfg late_at_one "[]" "[]" 0 "[]" "[]" "[]"
            quiet quiet quiet quiet quiet quiet, unfolded Let_def, THEN mp, OF hyp_b]
  note rep = th_a [THEN conjunct2, THEN conjunct2, THEN conjunct1, THEN mp, OF a4]
  note stop = th_b [THEN conjunct2, THEN conjunct2, THEN conjunct2, THEN mp, OF b4]
  have r1: "desired_action
      (run rt_cfg (Backend quiet # [] @ Backend quiet # [] @ Backend quiet # [Client_Append 6] @
                   Backend quiet # [] @ Backend quiet # [] @ [Backend quiet]) ?S) = [5, 6, 5]"
    using rep [THEN conjunct1] by (simp add: a5)
  have r2: "action_repetitions
      (status_series
        (run rt_cfg (Backend quiet # [] @ Backend quiet # [] @ Backend quiet # [Client_Append 6] @
                     Backend quiet # [] @ Backend quiet # [] @ [Backend quiet]) ?S) ! 1) = 1"
    using rep [THEN conjunct2, THEN conjunct2, THEN conjunct1]
    by (simp add: a3 a6 default_status_def)
  have r3: "status_series
     (run rt_cfg (Backend quiet # [] @ Backend quiet # [] @ Backend quiet # [] @ [Backend quiet])
        ?T) =
     [default_status,
      \<lparr>error_status = BACKEND_ERROR,
       error_message = ''Next action was not provided in time'', action_repetitions = 0\<rparr>]"
    using stop [THEN conjunct1] by (simp add: b5 b6 quiet_def set_error_def default_status_def)
  show ?thesis
    using rt a1 a2 a7 a4 b1 b4 r1 r2 r3 by (intro conjI)
qed

text \<open>
  C4, as stated, fails twice over.  With a limit of one action, a driver fault in step 1
  makes status 1 a \<^verbatim>\<open>DRIVER_ERROR\<close>; and clients may append as many desired actions as
  they like, here three.
\<close>

theorem C4_counterexample:
  "0 < max_number_of_actions one_action_cfg \<and>
   unat (max_number_of_actions one_action_cfg) = 1 \<and>
   status_series (run one_action_cfg fault_at_limit init_state) ! 1 =
     \<lparr>error_status = DRIVER_ERROR, error_message = ''overheat'', action_repetitions = 0\<rparr> \<and>
   length (status_series (run one_action_cfg fault_at_limit init_state)) = 2 \<and>
   length (desired_action (run one_action_cfg fault_at_limit init_state)) = 3"
  by (simp add: fault_at_limit_def run_eval one_action_cfg_def)

text \<open>
  C4, amended.  With an action limit \<open>N > 0\<close>: the series the backend alone writes stay
  within \<open>N + 1\<close> elements (status and observation) and \<open>N\<close> elements (applied actions);
  nothing bounds the desired actions.  Step \<open>N\<close> starts from the status
  \<^verbatim>\<open>BACKEND_ERROR\<close>, "Maximum number of actions reached." (with the full stop).  The
  status appended at index \<open>N\<close> is \<^verbatim>\<open>BACKEND_ERROR\<close> when \<^verbatim>\<open>get_error()\<close> returns the empty
  string in step \<open>N\<close>, its message being that one or "Next action was not provided in
  time", and \<^verbatim>\<open>DRIVER_ERROR\<close> otherwise; the loop is left.  In particular, whenever the
  status series has an element at index \<open>N\<close>, it is an error and the loop has been left.
\<close>

theorem C4_action_limit:
  "0 < max_number_of_actions cfg \<longrightarrow>
   (let s = run cfg es init_state; N = unat (max_number_of_actions cfg) in
      length (status_series s) \<le> N + 1 \<and> length (observation s) \<le> N + 1 \<and>
      length (applied_action s) \<le> N \<and>
      (length (status_series s) = N + 1 \<longrightarrow>
         error_status (status_series s ! N) \<noteq> NO_ERROR \<and>
         (pc s = Post_Shutdown \<or> pc s = Post_Flag \<or> pc s = Terminated)) \<and>
      (pc s = B_Head \<and> timeindex s = N \<and> env_only E0 \<and> \<not> is_shutdown_requested s \<and>
       \<not> received_sigint (run cfg (Backend a0 # E0) s) \<longrightarrow>
         cur_status (run cfg (Backend a0 # E0 @ [Backend a0']) s) =
           set_error BACKEND_ERROR ''Maximum number of actions reached.'' default_status) \<and>
      (pc s = B_Get_Error \<and> timeindex s = N \<and> env_only E \<longrightarrow>
         (let s' = run cfg (Backend a # E @ [Backend a']) s in
            length (status_series s) = N \<and> length (status_series s') = N + 1 \<and>
            error_status (status_series s' ! N) =
              (if ans_error a = [] then BACKEND_ERROR else DRIVER_ERROR) \<and>
            (ans_error a = [] \<longrightarrow>
               error_message (status_series s' ! N) = ''Maximum number of actions reached.'' \<or>
               error_message (status_series s' ! N) = ''Next action was not provided in time'') \<and>
            pc s' = Post_Shutdown)))"
proof
  assume pos: "0 < max_number_of_actions cfg"
  define s where "s = run cfg es init_state"
  define N where "N = unat (max_number_of_actions cfg)"
  have i1: "inv1 s" and i2: "inv2 cfg s" and i4: "inv4 cfg s"
    unfolding s_def by (rule inv1_reach inv2_reach inv4_reach)+
  have bounds: "length (status_series s) \<le> N + 1 \<and> length (observation s) \<le> N + 1 \<and>
      length (applied_action s) \<le> N \<and>
      (length (status_series s) = N + 1 \<longrightarrow>
         error_status (status_series s ! N) \<noteq> NO_ERROR \<and>
         (pc s = Post_Shutdown \<or> pc s = Post_Flag \<or> pc s = Terminated))"
    using limit_facts [OF i1 i2 pos] i4 pos by (simp add: N_def inv4_def)
  have head: "cur_status (run cfg (Backend a0 # E0 @ [Backend a0']) s) =
           set_error BACKEND_ERROR ''Maximum number of actions reached.'' default_status"
    if "pc s = B_Head" and "timeindex s = N" and e0: "env_only E0"
      and "\<not> is_shutdown_requested s"
      and "\<not> received_sigint (run cfg (Backend a0 # E0) s)"
    using that pos by (simp add: env_run_frame [OF e0] initial_status_def N_def)
  have poll: "length (status_series s) = N \<and>
            length (status_series (run cfg (Backend a # E @ [Backend a']) s)) = N + 1 \<and>
            error_status (status_series (run cfg (Backend a # E @ [Backend a']) s) ! N) =
              (if ans_error a = [] then BACKEND_ERROR else DRIVER_ERROR) \<and>
            (ans_error a = [] \<longrightarrow>
               error_message (status_series (run cfg (Backend a # E @ [Backend a']) s) ! N)
                 = ''Maximum number of actions reached.'' \<or>
               error_message (status_series (run cfg (Backend a # E @ [Backend a']) s) ! N)
                 = ''Next action was not provided in time'') \<and>
            pc (run cfg (Backend a # E @ [Backend a']) s) = Post_Shutdown"
    if at: "pc s = B_Get_Error" and t: "timeindex s = N" and e: "env_only E"
  proof -
    from i1 at t have len: "length (status_series s) = N"
      by (simp add: inv1_def in_step_def shape_def)
    from i2 at t pos have cur: "error_status (cur_status s) = BACKEND_ERROR"
      "error_message (cur_status s) = ''Maximum number of actions reached.'' \<or>
       error_message (cur_status s) = ''Next action was not provided in time''"
      by (simp_all add: inv2_def reached_def N_def max_actions_message_def
            late_action_message_def)
    show ?thesis
      using at len cur
      by (simp add: env_run_frame [OF e] set_error_def ts_append_def nth_append)
  qed
  show "let s = run cfg es init_state; N = unat (max_number_of_actions cfg) in
      length (status_series s) \<le> N + 1 \<and> length (observation s) \<le> N + 1 \<and>
      length (applied_action s) \<le> N \<and>
      (length (status_series s) = N + 1 \<longrightarrow>
         error_status (status_series s ! N) \<noteq> NO_ERROR \<and>
         (pc s = Post_Shutdown \<or> pc s = Post_Flag \<or> pc s = Terminated)) \<and>
      (pc s = B_Head \<and> timeindex s = N \<and> env_only E0 \<and> \<not> is_shutdown_requested s \<and>
       \<not> received_sigint (run cfg (Backend a0 # E0) s) \<longrightarrow>
         cur_status (run cfg (Backend a0 # E0 @ [Backend a0']) s) =
           set_error BACKEND_ERROR ''Maximum number of actions reached.'' default_status) \<and>
      (pc s = B_Get_Error \<and> timeindex s = N \<and> env_only E \<longrightarrow>
         (let s' = run cfg (Backend a # E @ [Backend a']) s in
            length (status_series s) = N \<and> length (status_series s') = N + 1 \<and>
            error_status (status_series s' ! N) =
              (if ans_error a = [] then BACKEND_ERROR else DRIVER_ERROR) \<and>
            (ans_error a = [] \<longrightarrow>
               error_message (status_series s' ! N) = ''Maximum number of actions reached.'' \<or>
               error_message (status_series s' ! N) = ''Next action was not provided in time'') \<and>
            pc s' = Post_Shutdown))"
    unfolding Let_def s_def [symmetric] N_def [symmetric]
    using bounds head poll by blast
qed

theorem C4_witness:
  "0 < max_number_of_actions one_action_cfg \<and>
   pc (run one_action_cfg limit_before_poll init_state) = B_Get_Error \<and>
   timeindex (run one_action_cfg limit_before_poll init_state)
     = unat (max_number_of_actions one_action_cfg) \<and>
   error_status
     (status_series
        (run one_action_cfg (Backend quiet # [Client_Append 6] @ [Backend quiet])
           (run one_action_cfg limit_before_poll init_state))
      ! unat (max_number_of_actions one_action_cfg)) = BACKEND_ERROR \<and>
   pc (run one_action_cfg (Backend quiet # [Client_Append 6] @ [Backend quiet])
         (run one_action_cfg limit_before_poll init_state)) = Post_Shutdown \<and>
   length (status_series (run one_action_cfg limit_hit init_state))
     = unat (max_number_of_actions one_action_cfg) + 1 \<and>
   error_status (status_series (run one_action_cfg limit_hit init_state)
     ! unat (max_number_of_actions one_action_cfg)) \<noteq> NO_ERROR \<and>
   pc (run one_action_cfg first_step_done init_state) = B_Head \<and>
   cur_status (run one_action_cfg (Backend quiet # [Client_Append 6] @ [Backend quiet])
                 (run one_action_cfg first_step_done init_state)) =
     set_error BACKEND_ERROR ''Maximum number of actions reached.'' default_status"
proof -
  have 1: "0 < max_number_of_actions one_action_cfg"
    by (simp add: one_action_cfg_def)
  have 2: "pc (run one_action_cfg limit_before_poll init_state) = B_Get_Error"
    and 3: "timeindex (run one_action_cfg limit_before_poll init_state)
              = unat (max_number_of_actions one_action_cfg)"
    by (simp_all add: limit_before_poll_def first_step_done_def applied_zero_pending_def
          run_eval one_action_cfg_def)
  have 4: "env_only [Client_Append 6 :: (nat, nat) event]"
    by simp
  have 5: "ans_error quiet = []"
    by (simp add: quiet_def)
  have 6: "length (status_series (run one_action_cfg limit_hit init_state))
             = unat (max_number_of_actions one_action_cfg) + 1"
    by (simp add: limit_hit_def first_step_done_def applied_zero_pending_def
          run_eval one_action_cfg_def)
  have 7: "pc (run one_action_cfg first_step_done init_state) = B_Head"
    and 8: "timeindex (run one_action_cfg first_step_done init_state)
              = unat (max_number_of_actions one_action_cfg)"
    and 9: "\<not> is_shutdown_requested (run one_action_cfg first_step_done init_state)"
    and 10: "\<not> received_sigint
               (run one_action_cfg (Backend quiet # [Client_Append 6])
                  (run one_action_cfg first_step_done init_state))"
    by (simp_all add: first_step_done_def applied_zero_pending_def
          run_eval one_action_cfg_def)
  have "error_status
     (status_series
        (run one_action_cfg (Backend quiet # [Client_Append 6] @ [Backend quiet])
           (run one_action_cfg limit_before_poll init_state))
      ! unat (max_number_of_actions one_action_cfg)) =
      (if ans_error quiet = [] then BACKEND_ERROR else DRIVER_ERROR) \<and>
   pc (run one_action_cfg (Backend quiet # [Client_Append 6] @ [Backend quiet])
         (run one_action_cfg limit_before_poll init_state)) = Post_Shutdown"
    using 1 2 3 4
      C4_action_limit
        [where cfg = one_action_cfg and es = limit_before_poll and E = "[Client_Append 6]"
           and a = quiet and a' = quiet]
    unfolding Let_def by blast
  moreover have "error_status (status_series (run one_action_cfg limit_hit init_state)
     ! unat (max_number_of_actions one_action_cfg)) \<noteq> NO_ERROR"
    using 1 6 C4_action_limit [where cfg = one_action_cfg and es = limit_hit]
    unfolding Let_def by blast
  moreover have "cur_status
                   (run one_action_cfg (Backend quiet # [Client_Append 6] @ [Backend quiet])
                      (run one_action_cfg first_step_done init_state)) =
     set_error BACKEND_ERROR ''Maximum number of actions reached.'' default_status"
    using 1 4 7 8 9 10
      C4_action_limit
        [where cfg = one_action_cfg and es = first_step_done and ?E0.0 = "[Client_Append 6]"
           and ?a0.0 = quiet and a0' = quiet]
    unfolding Let_def by blast
  ultimately show ?thesis
    using 1 2 3 5 6 7 by simp
qed

end
